theory Spec2Isabelle
  imports Main "HOL-Library.Sublist" "HOL-Library.Multiset"
begin

section \<open>The pipeline data model\<close>

text \<open>
  The embedding follows \<^verbatim>\<open>pipeline-builder/src/utils/codeGenerator.ts\<close>, function by
  function.
\<close>

text \<open>
  The enums and interfaces are those of \<^verbatim>\<open>types/pipeline.ts\<close>, whose text stands at the
  end of \<^verbatim>\<open>data/nodeTemplates.ts\<close>. \<^verbatim>\<open>NodeType\<close> has the six members \<^verbatim>\<open>'input'\<close>,
  \<^verbatim>\<open>'processing'\<close>, \<^verbatim>\<open>'retrieval'\<close>, \<^verbatim>\<open>'llm'\<close>, \<^verbatim>\<open>'logic'\<close> and \<^verbatim>\<open>'output'\<close>. A node
  type is a string at run time and \<^verbatim>\<open>buildPipeline\<close> only casts it, so \<open>OtherType s\<close>
  stands for a string \<open>s\<close> that is none of these six.
\<close>

datatype NodeType = INPUT | PROCESSING | RETRIEVAL | LLM | LOGIC | OUTPUT | OtherType string

datatype DataType = TEXT | PDF | CHUNKS | EMBEDDINGS | JSON | BOOLEAN | NUMBER

text \<open>
  The string value of a member of \<^verbatim>\<open>DataType\<close>, which a template literal prints.
\<close>

fun dataTypeValue :: "DataType \<Rightarrow> string" where
  "dataTypeValue TEXT = ''text''"
| "dataTypeValue PDF = ''pdf''"
| "dataTypeValue CHUNKS = ''chunks''"
| "dataTypeValue EMBEDDINGS = ''embeddings''"
| "dataTypeValue JSON = ''json''"
| "dataTypeValue BOOLEAN = ''boolean''"
| "dataTypeValue NUMBER = ''number''"

record Port =
  port_id :: string
  port_label :: string
  dataType :: DataType
  required :: bool

text \<open>
  Strings are lists of bytes: the model is exact on ASCII text. A thrown JavaScript value
  is a value of the model, and \<open>Inl\<close> of a sum is a throw: \<open>JsError message\<close> is an
  instance of \<^verbatim>\<open>Error\<close> with its message (the text V8 gives, for the errors of the
  runtime), \<open>NonError\<close> any other thrown value.
\<close>

datatype js_error = JsError string | NonError

text \<open>
  A configuration value, by the four branches of \<^verbatim>\<open>formatConfigMap\<close>. A number is held
  as the text \<^verbatim>\<open>String(value)\<close> gives. Any other value is held as what
  \<^verbatim>\<open>JSON.stringify\<close> does on it: the text it returns, or what it throws (a
  \<^verbatim>\<open>TypeError\<close> on a \<^verbatim>\<open>BigInt\<close> or a circular structure, whatever a \<^verbatim>\<open>toJSON\<close>
  method throws). The configuration object is the list of its
  entries, in the order of \<^verbatim>\<open>Object.entries\<close>.
\<close>

datatype ConfigValue =
  StringValue string | NumberValue string | BooleanValue bool | OtherValue "js_error + string"

type_synonym Config = "(string \<times> ConfigValue) list"

text \<open>
  \<^verbatim>\<open>PipelineNodeData\<close>, \<^verbatim>\<open>PipelineNode\<close> and \<^verbatim>\<open>Pipeline\<close>, with the fields the generator
  reads. The type of the two port fields is a parameter: \<^verbatim>\<open>NodePort[]\<close> in the
  interface, it is \<open>Port list\<close> in a value of the declared type. (The constructor fills
  the fields by a cast, from nodes of the editor that may hold something else.)
\<close>

record 'ports NodeDataOf =
  data_id :: string
  data_type :: NodeType
  label :: string
  description :: string
  icon :: string
  inputs :: 'ports
  outputs :: 'ports
  config :: Config

record 'ports NodeOf =
  node_id :: string
  node_type :: NodeType
  data :: "'ports NodeDataOf"

type_synonym PipelineNodeData = "Port list NodeDataOf"

type_synonym PipelineNode = "Port list NodeOf"

text \<open>
  A handle of a React Flow edge is \<^verbatim>\<open>string | null | undefined\<close>: \<open>None\<close> is a missing
  handle.
\<close>

record PipelineEdge =
  edge_id :: string
  source :: string
  target :: string
  sourceHandle :: "string option"
  targetHandle :: "string option"
  edge_sourcePort :: string
  edge_targetPort :: string
  edge_dataType :: DataType
  validated :: bool

record 'ports PipelineOf =
  pipeline_id :: string
  name :: string
  pipeline_description :: string
  version :: string
  nodes :: "'ports NodeOf list"
  edges :: "PipelineEdge list"
  createdAt :: nat
  updatedAt :: nat
  isValid :: bool
  validationErrors :: "string list"

type_synonym Pipeline = "Port list PipelineOf"

text \<open>
  \<^verbatim>\<open>value || fallback\<close> on an optional string: a missing value and the empty string
  are both falsy.
\<close>

definition orDefault :: "string option \<Rightarrow> string \<Rightarrow> string" where
  "orDefault v fallback = (case v of None \<Rightarrow> fallback | Some s \<Rightarrow> if s = [] then fallback else s)"

section \<open>The validator\<close>

fun compatibilityRules :: "DataType \<Rightarrow> DataType list" where
  "compatibilityRules PDF = [TEXT]"
| "compatibilityRules TEXT = [CHUNKS]"
| "compatibilityRules CHUNKS = [EMBEDDINGS, TEXT]"
| "compatibilityRules EMBEDDINGS = []"
| "compatibilityRules JSON = [TEXT]"
| "compatibilityRules BOOLEAN = [TEXT]"
| "compatibilityRules NUMBER = [TEXT]"

definition isDataTypeCompatible :: "DataType \<Rightarrow> DataType \<Rightarrow> bool" where
  "isDataTypeCompatible sourceType targetType =
     (if sourceType = targetType then True
      else targetType \<in> set (compatibilityRules sourceType))"

definition missingInputError :: string where
  "missingInputError = ''Pipeline must have at least one input node''"

definition missingOutputError :: string where
  "missingOutputError = ''Pipeline must have at least one output node''"

definition invalidConnectionError :: "string \<Rightarrow> string \<Rightarrow> string" where
  "invalidConnectionError src tgt = ''Invalid connection: '' @ src @ '' -> '' @ tgt"

definition incompatibleTypesError :: "DataType \<Rightarrow> DataType \<Rightarrow> string \<Rightarrow> string \<Rightarrow> string" where
  "incompatibleTypesError sourceType targetType sourceLabel targetLabel =
     ''Incompatible data types: '' @ dataTypeValue sourceType @ '' -> '' @ dataTypeValue targetType
       @ '' ('' @ sourceLabel @ '' -> '' @ targetLabel @ '')''"

text \<open>
  The body of the loop over the edges in \<^verbatim>\<open>validatePipeline\<close>: the diagnostics one edge
  pushes. An edge with a missing node pushes the invalid-connection diagnostic and the
  loop continues; the type check runs only when both ports are found.
\<close>

definition validateConnection :: "Pipeline \<Rightarrow> PipelineEdge \<Rightarrow> string list" where
  "validateConnection p edge =
     (case find (\<lambda>n. node_id n = source edge) (nodes p) of
        None \<Rightarrow> [invalidConnectionError (source edge) (target edge)]
      | Some sourceNode \<Rightarrow>
          (case find (\<lambda>n. node_id n = target edge) (nodes p) of
             None \<Rightarrow> [invalidConnectionError (source edge) (target edge)]
           | Some targetNode \<Rightarrow>
               (case find (\<lambda>port. Some (port_id port) = sourceHandle edge) (outputs (data sourceNode)) of
                  None \<Rightarrow> []
                | Some sourcePort \<Rightarrow>
                    (case find (\<lambda>port. Some (port_id port) = targetHandle edge) (inputs (data targetNode)) of
                       None \<Rightarrow> []
                     | Some targetPort \<Rightarrow>
                         if \<not> isDataTypeCompatible (dataType sourcePort) (dataType targetPort)
                         then [incompatibleTypesError (dataType sourcePort) (dataType targetPort)
                                 (label (data sourceNode)) (label (data targetNode))]
                         else []))))"

definition validatePipeline :: "Pipeline \<Rightarrow> string list" where
  "validatePipeline p =
     (let errors = [];
          inputNodes = filter (\<lambda>node. data_type (data node) = INPUT) (nodes p);
          errors = (if length inputNodes = 0 then errors @ [missingInputError] else errors);
          outputNodes = filter (\<lambda>node. data_type (data node) = OUTPUT) (nodes p);
          errors = (if length outputNodes = 0 then errors @ [missingOutputError] else errors)
      in foldl (\<lambda>errors edge. errors @ validateConnection p edge) errors (edges p))"

section \<open>The scheduler\<close>

text \<open>
  The closure \<^verbatim>\<open>visit\<close> of \<^verbatim>\<open>topologicalSort\<close> mutates the two sets and the result
  list; the model passes them as a state. \<open>None\<close> is the return value \<^verbatim>\<open>false\<close>: the
  caller then returns at once, and the state is never read again. \<open>visit_deps\<close> is the
  loop of \<^verbatim>\<open>visit\<close> over the dependencies of the node.
\<close>

record SortState =
  visited :: "string set"
  visiting :: "string set"
  result :: "string list"

definition dependencies :: "PipelineEdge list \<Rightarrow> string \<Rightarrow> string list" where
  "dependencies es nodeId = map source (filter (\<lambda>edge. target edge = nodeId) es)"

function visit :: "PipelineEdge list \<Rightarrow> string \<Rightarrow> SortState \<Rightarrow> SortState option"
  and visit_deps :: "PipelineEdge list \<Rightarrow> string list \<Rightarrow> SortState \<Rightarrow> SortState option"
where
  "visit es nodeId s =
     (if nodeId \<in> visiting s then None
      else if nodeId \<in> visited s then Some s
      else (case visit_deps es (dependencies es nodeId) (s\<lparr>visiting := insert nodeId (visiting s)\<rparr>) of
              None \<Rightarrow> None
            | Some s' \<Rightarrow> Some (s'\<lparr>visiting := visiting s' - {nodeId},
                                  visited := insert nodeId (visited s'),
                                  result := result s' @ [nodeId]\<rparr>)))"
| "visit_deps es [] s = Some s"
| "visit_deps es (depId # rest) s =
     (case visit es depId s of
        None \<Rightarrow> None
      | Some s' \<Rightarrow> visit_deps es rest s')"
  by pat_completeness auto

lemma visit_dom_visiting:
  "visit_visit_deps_dom (Inl (es, nodeId, s)) \<Longrightarrow> visit es nodeId s = Some s' \<Longrightarrow> visiting s' = visiting s"
  "visit_visit_deps_dom (Inr (es, deps, s)) \<Longrightarrow> visit_deps es deps s = Some s' \<Longrightarrow> visiting s' = visiting s"
proof (induction es nodeId s and es deps s arbitrary: s' and s' rule: visit_visit_deps.pinduct)
  case (1 es nodeId s)
  note eq = visit.psimps [OF "1.hyps"]
  show ?case
  proof (cases "nodeId \<in> visiting s")
    case True
    with eq "1.prems" show ?thesis by simp
  next
    case nv: False
    show ?thesis
    proof (cases "nodeId \<in> visited s")
      case True
      with eq nv "1.prems" show ?thesis by simp
    next
      case False
      with eq nv "1.prems" obtain s1 where
        s1: "visit_deps es (dependencies es nodeId) (s\<lparr>visiting := insert nodeId (visiting s)\<rparr>) = Some s1"
        and s': "s' = s1\<lparr>visiting := visiting s1 - {nodeId}, visited := insert nodeId (visited s1),
                       result := result s1 @ [nodeId]\<rparr>"
        by (simp split: option.splits)
      from "1.IH" [OF nv False s1] have "visiting s1 = insert nodeId (visiting s)"
        by simp
      with s' nv show ?thesis by simp
    qed
  qed
next
  case (2 es s)
  then show ?case by (simp add: visit_deps.psimps)
next
  case (3 es depId rest s)
  note eq = visit_deps.psimps(2) [OF "3.hyps"]
  from eq "3.prems" obtain s1 where
    s1: "visit es depId s = Some s1" and r: "visit_deps es rest s1 = Some s'"
    by (simp split: option.splits)
  from "3.IH"(1) [OF s1] "3.IH"(2) [OF s1 r] show ?case by simp
qed

text \<open>
  The recursion ends: a call of \<open>visit\<close> on a node that is not being visited adds it
  to \<open>visiting\<close>, so the edge sources outside \<open>visiting\<close> become fewer; the loop over the
  dependencies keeps \<open>visiting\<close> and shortens the list.
\<close>

definition sort_measure ::
  "(PipelineEdge list \<times> string \<times> SortState) + (PipelineEdge list \<times> string list \<times> SortState) \<Rightarrow> nat \<times> nat"
where
  "sort_measure x =
     (case x of
        Inl (es, nodeId, s) \<Rightarrow> (card ((set (map source es) \<union> {nodeId}) - visiting s), 0)
      | Inr (es, deps, s) \<Rightarrow> (card ((set (map source es) \<union> set deps) - visiting s), Suc (length deps)))"

termination visit
proof (relation "inv_image (less_than <*lex*> less_than) sort_measure")
  show "wf (inv_image (less_than <*lex*> less_than) sort_measure)"
    by (intro wf_inv_image wf_lex_prod wf_less_than)
next
  fix es :: "PipelineEdge list" and nodeId :: string and s :: SortState
  assume a: "nodeId \<notin> visiting s"
  have sub: "set (dependencies es nodeId) \<subseteq> set (map source es)"
    by (auto simp: dependencies_def)
  have "(set (map source es) \<union> set (dependencies es nodeId)) - insert nodeId (visiting s)
        \<subset> (set (map source es) \<union> {nodeId}) - visiting s"
    using a sub by auto
  then have "card ((set (map source es) \<union> set (dependencies es nodeId)) - insert nodeId (visiting s))
        < card ((set (map source es) \<union> {nodeId}) - visiting s)"
    by (intro psubset_card_mono) auto
  then show "(Inr (es, dependencies es nodeId, s\<lparr>visiting := insert nodeId (visiting s)\<rparr>), Inl (es, nodeId, s))
        \<in> inv_image (less_than <*lex*> less_than) sort_measure"
    by (simp add: sort_measure_def)
next
  fix es :: "PipelineEdge list" and depId :: string and rest :: "string list" and s :: SortState
  have "card ((set (map source es) \<union> {depId}) - visiting s)
        \<le> card ((set (map source es) \<union> set (depId # rest)) - visiting s)"
    by (intro card_mono) auto
  then show "(Inl (es, depId, s), Inr (es, depId # rest, s))
        \<in> inv_image (less_than <*lex*> less_than) sort_measure"
    by (simp add: sort_measure_def) arith
next
  fix es :: "PipelineEdge list" and depId :: string and rest :: "string list" and s x2 :: SortState
  assume "visit_visit_deps_dom (Inl (es, depId, s))" "visit es depId s = Some x2"
  then have v: "visiting x2 = visiting s"
    by (rule visit_dom_visiting)
  have "card ((set (map source es) \<union> set rest) - visiting s)
        \<le> card ((set (map source es) \<union> set (depId # rest)) - visiting s)"
    by (intro card_mono) auto
  then show "(Inr (es, rest, x2), Inr (es, depId # rest, s))
        \<in> inv_image (less_than <*lex*> less_than) sort_measure"
    using v by (simp add: sort_measure_def) arith
qed

declare visit.simps [simp del]

text \<open>The loop of \<^verbatim>\<open>topologicalSort\<close> over the declared nodes, and the function.\<close>

fun visitNodes :: "PipelineEdge list \<Rightarrow> 'ports NodeOf list \<Rightarrow> SortState \<Rightarrow> SortState option" where
  "visitNodes es [] s = Some s"
| "visitNodes es (node # rest) s =
     (case visit es (node_id node) s of
        None \<Rightarrow> None
      | Some s' \<Rightarrow> visitNodes es rest s')"

definition topologicalSort :: "'ports PipelineOf \<Rightarrow> string list option" where
  "topologicalSort p =
     (case visitNodes (edges p) (nodes p) \<lparr>visited = {}, visiting = {}, result = []\<rparr> of
        None \<Rightarrow> None
      | Some s \<Rightarrow> Some (result s))"

section \<open>The emitter\<close>

text \<open>
  The generator builds its text from template literals. A template of several lines is
  the list of its lines, joined by the line feed; a substitution is a concatenation.
\<close>

definition newline :: string where
  "newline = [CHR 0x0A]"

text \<open>
  \<^verbatim>\<open>Array.prototype.join\<close>, and \<^verbatim>\<open>Array.prototype.map\<close> with a callback that may
  throw: the first throw of a callback ends the \<^verbatim>\<open>map\<close>.
\<close>

fun join :: "string \<Rightarrow> string list \<Rightarrow> string" where
  "join separator [] = []"
| "join separator [x] = x"
| "join separator (x # y # ys) = x @ separator @ join separator (y # ys)"

fun mapResult :: "('a \<Rightarrow> js_error + 'b) \<Rightarrow> 'a list \<Rightarrow> js_error + 'b list" where
  "mapResult f [] = Inr []"
| "mapResult f (x # xs) =
     (case f x of
        Inl e \<Rightarrow> Inl e
      | Inr y \<Rightarrow> (case mapResult f xs of Inl e \<Rightarrow> Inl e | Inr ys \<Rightarrow> Inr (y # ys)))"

text \<open>The decimal text of a length inside a template literal.\<close>

definition digit :: "nat \<Rightarrow> char" where
  "digit d = char_of (48 + d)"

fun showNat :: "nat \<Rightarrow> string" where
  "showNat n = (if n < 10 then [digit n] else showNat (n div 10) @ [digit (n mod 10)])"

declare showNat.simps [simp del]

text \<open>\<^verbatim>\<open>id.replace(/[^a-zA-Z0-9]/g, '_')\<close>, \<^verbatim>\<open>toLowerCase()\<close> and \<^verbatim>\<open>includes\<close>, on ASCII.\<close>

definition isAlphaNumeric :: "char \<Rightarrow> bool" where
  "isAlphaNumeric c =
     (let n = (of_char c :: nat)
      in (48 \<le> n \<and> n \<le> 57) \<or> (65 \<le> n \<and> n \<le> 90) \<or> (97 \<le> n \<and> n \<le> 122))"

definition replaceNonAlphaNumeric :: "string \<Rightarrow> string" where
  "replaceNonAlphaNumeric s = map (\<lambda>c. if isAlphaNumeric c then c else CHR ''_'') s"

definition toLowerCase :: "string \<Rightarrow> string" where
  "toLowerCase s =
     map (\<lambda>c. let n = (of_char c :: nat) in if 65 \<le> n \<and> n \<le> 90 then char_of (n + 32) else c) s"

definition stringIncludes :: "string \<Rightarrow> string \<Rightarrow> bool" where
  "stringIncludes s searchString = sublist searchString s"

subsection \<open>Node configurations\<close>

fun formatConfigEntry :: "string \<times> ConfigValue \<Rightarrow> js_error + string" where
  \<open>formatConfigEntry (key, StringValue v) = Inr (''"'' @ key @ ''" to "'' @ v @ ''"'')\<close>
| \<open>formatConfigEntry (key, NumberValue v) = Inr (''"'' @ key @ ''" to '' @ v)\<close>
| \<open>formatConfigEntry (key, BooleanValue v) = Inr (''"'' @ key @ ''" to '' @ (if v then ''true'' else ''false''))\<close>
| \<open>formatConfigEntry (key, OtherValue v) =
     (case v of
        Inl e \<Rightarrow> Inl e
      | Inr json \<Rightarrow> Inr (''"'' @ key @ ''" to "'' @ json @ ''"''))\<close>

definition formatConfigMap :: "Config \<Rightarrow> js_error + string" where
  "formatConfigMap cfg =
     (case mapResult formatConfigEntry cfg of
        Inl e \<Rightarrow> Inl e
      | Inr entries \<Rightarrow> Inr (join '', '' entries))"

definition generateNodeConfigurations :: "'ports PipelineOf \<Rightarrow> js_error + string" where
  \<open>generateNodeConfigurations p =
     (case mapResult
             (\<lambda>node. case formatConfigMap (config (data node)) of
                       Inl e \<Rightarrow> Inl e
                     | Inr formatted \<Rightarrow>
                         Inr (''        nodeConfigs["'' @ node_id node @ ''"] = mapOf('' @ formatted @ '')''))
             (nodes p) of
        Inl e \<Rightarrow> Inl e
      | Inr ls \<Rightarrow> Inr (join newline ls))\<close>

subsection \<open>Node logic, by node type and label\<close>

definition generateInputNodeLogic :: "'ports NodeOf \<Rightarrow> string" where
  \<open>generateInputNodeLogic node =
     (if stringIncludes (toLowerCase (label (data node))) ''pdf''
      then join newline
            [''            // PDF Input Node'',
             ''            val pdfResult = nodeOutputs["pdf"] ?: throw IllegalArgumentException("PDF input required")'']
     else if stringIncludes (toLowerCase (label (data node))) ''text''
      then join newline
            [''            // Text Input Node'',
             ''            val textResult = nodeOutputs["text"] ?: config["defaultText"] ?: ""'']
     else join newline
            [''            // Generic Input Node'',
             ''            val inputResult = nodeOutputs["data"] ?: ""''])\<close>

definition generateProcessingNodeLogic :: "'ports NodeOf \<Rightarrow> string" where
  \<open>generateProcessingNodeLogic node =
     (if stringIncludes (toLowerCase (label (data node))) ''chunker''
      then join newline
            [''            // Text Chunker Node'',
             ''            val inputText = input as? String ?: ""'',
             ''            val chunkSize = config["chunkSize"] as? Int ?: 512'',
             ''            val overlap = config["overlap"] as? Int ?: 64'',
             ''            '',
             ''            val chunksResult = ragPipeline.chunkText(inputText, chunkSize, overlap)'']
     else if stringIncludes (toLowerCase (label (data node))) ''embedding''
      then join newline
            [''            // Embedding Generator Node'',
             ''            val inputChunks = chunks as? List<String> ?: emptyList()'',
             ''            val embeddingsResult = ragPipeline.generateEmbeddings(inputChunks)'']
     else if stringIncludes (toLowerCase (label (data node))) ''extractor''
      then join newline
            [''            // PDF Text Extractor Node'',
             ''            val pdfUri = pdf as? String ?: ""'',
             ''            val textResult = ragPipeline.extractTextFromPdf(pdfUri)'']
     else join newline
            [''            // Generic Processing Node'',
             ''            val processedResult = input''])\<close>

definition generateRetrievalNodeLogic :: "'ports NodeOf \<Rightarrow> string" where
  \<open>generateRetrievalNodeLogic node =
     (if stringIncludes (toLowerCase (label (data node))) ''search''
      then join newline
            [''            // Similarity Search Node'',
             ''            val queryText = query as? String ?: ""'',
             ''            val topK = config["topK"] as? Int ?: 3'',
             ''            val threshold = config["threshold"] as? Double ?: 0.0'',
             ''            '',
             ''            val resultsResult = ragPipeline.searchSimilar(queryText, topK, threshold)'']
     else if stringIncludes (toLowerCase (label (data node))) ''vector''
      then join newline
            [''            // Vector Store Node'',
             ''            val inputEmbeddings = embeddings as? List<FloatArray> ?: emptyList()'',
             ''            val storedResult = ragPipeline.storeEmbeddings(inputEmbeddings)'']
     else join newline
            [''            // Generic Retrieval Node'',
             ''            val retrievalResult = input''])\<close>

definition generateLlmNodeLogic :: "'ports PipelineOf \<Rightarrow> 'ports NodeOf \<Rightarrow> string" where
  \<open>generateLlmNodeLogic p node =
     (if stringIncludes (toLowerCase (label (data node))) ''gemma''
      then (let inputConnections = filter (\<lambda>edge. target edge = node_id node) (edges p);
                promptInput = find (\<lambda>edge. targetHandle edge = Some ''prompt'') inputConnections;
                contextInput = find (\<lambda>edge. targetHandle edge = Some ''context'') inputConnections
            in join newline
                 [''            // Gemma LLM Node'',
                  ''            val inputPrompt = '' @ (if promptInput \<noteq> None then ''prompt as? String ?: ""'' else ''config["defaultPrompt"] as? String ?: ""''),
                  ''            val contextChunks = '' @ (if contextInput \<noteq> None then ''context as? List<String> ?: emptyList()'' else ''emptyList<String>()''),
                  ''            val temperature = config["temperature"] as? Double ?: 0.8'',
                  ''            val maxTokens = config["maxTokens"] as? Int ?: 150'',
                  ''            '',
                  ''            val responseResult = ragPipeline.generateResponse(inputPrompt, contextChunks, temperature, maxTokens)''])
      else if stringIncludes (toLowerCase (label (data node))) ''prompt''
      then (let inputConnections = filter (\<lambda>edge. target edge = node_id node) (edges p);
                queryInput = find (\<lambda>edge. targetHandle edge = Some ''query'') inputConnections;
                contextInput = find (\<lambda>edge. targetHandle edge = Some ''context'') inputConnections
            in join newline
                 [''            // Prompt Builder Node'',
                  ''            val userQuery = '' @ (if queryInput \<noteq> None then ''query as? String ?: ""'' else ''config["defaultQuery"] as? String ?: ""''),
                  ''            val contextChunks = '' @ (if contextInput \<noteq> None then ''context as? List<String> ?: emptyList()'' else ''emptyList<String>()''),
                  ''            val template = config["template"] as? String ?: "default"'',
                  ''            '',
                  ''            val promptResult = ragPipeline.buildPrompt(userQuery, contextChunks, template)''])
      else join newline
             [''            // Generic LLM Node'',
              ''            val llmResult = nodeOutputs["input"] ?: ""''])\<close>

definition generateLogicNodeLogic :: "'ports NodeOf \<Rightarrow> string" where
  \<open>generateLogicNodeLogic node =
     (if stringIncludes (toLowerCase (label (data node))) ''if''
      then join newline
            [''            // If/Then Logic Node'',
             ''            val inputValue = input as? String ?: ""'',
             ''            val condition = config["condition"] as? String ?: "contains"'',
             ''            val checkValue = config["value"] as? String ?: ""'',
             ''            '',
             ''            val conditionResult = when (condition) {'',
             ''                "contains" -> inputValue.contains(checkValue)'',
             ''                "equals" -> inputValue == checkValue'',
             ''                "startsWith" -> inputValue.startsWith(checkValue)'',
             ''                "endsWith" -> inputValue.endsWith(checkValue)'',
             ''                else -> false'',
             ''            }'',
             ''            '',
             ''            val trueResult = if (conditionResult) inputValue else null'',
             ''            val falseResult = if (!conditionResult) inputValue else null'']
     else join newline
            [''            // Generic Logic Node'',
             ''            val logicResult = input''])\<close>

definition generateOutputNodeLogic :: "'ports PipelineOf \<Rightarrow> 'ports NodeOf \<Rightarrow> string" where
  \<open>generateOutputNodeLogic p node =
     (let inputConnections = filter (\<lambda>edge. target edge = node_id node) (edges p)
      in case inputConnections of
           primaryInput # _ \<Rightarrow>
             (let inputVar = orDefault (targetHandle primaryInput) ''input''
              in join newline
                   [''            // Output Node'',
                    ''            val outputResult = '' @ inputVar @ '' ?: ""''])
         | [] \<Rightarrow>
             join newline
               [''            // Output Node'',
                ''            val outputResult = nodeOutputs["input"] ?: ""''])\<close>

fun generateNodeLogic :: "'ports PipelineOf \<Rightarrow> 'ports NodeOf \<Rightarrow> string" where
  "generateNodeLogic p node =
     (case data_type (data node) of
        INPUT \<Rightarrow> generateInputNodeLogic node
      | PROCESSING \<Rightarrow> generateProcessingNodeLogic node
      | RETRIEVAL \<Rightarrow> generateRetrievalNodeLogic node
      | LLM \<Rightarrow> generateLlmNodeLogic p node
      | LOGIC \<Rightarrow> generateLogicNodeLogic node
      | OUTPUT \<Rightarrow> generateOutputNodeLogic p node
      | OtherType _ \<Rightarrow> ''            // Unknown node type'')"

subsection \<open>Node methods and the class\<close>

definition generateNodeMethod :: "Pipeline \<Rightarrow> PipelineNode \<Rightarrow> string" where
  \<open>generateNodeMethod p node =
     (let methodName = ''executeNode_'' @ replaceNonAlphaNumeric (node_id node);
          inputConnections = filter (\<lambda>edge. target edge = node_id node) (edges p);
          inputMappings = join newline
            (map (\<lambda>edge.
                    let sourceOutput = orDefault (sourceHandle edge) ''output'';
                        targetInput = orDefault (targetHandle edge) ''input''
                    in ''        val '' @ targetInput @ '' = nodeOutputs["'' @ source edge @ ''_'' @ sourceOutput @ ''"]'')
               inputConnections);
          outputAssignments = join newline
            (map (\<lambda>output. ''        nodeOutputs["'' @ node_id node @ ''_'' @ port_id output @ ''"] = '' @ port_id output @ ''Result'')
               (outputs (data node)))
      in join newline
           [''    /**'',
            ''     * Execute '' @ label (data node),
            ''     * '' @ description (data node),
            ''     */'',
            ''    private fun '' @ methodName @ ''() {'',
            ''        try {'',
            ''            val config = nodeConfigs["'' @ node_id node @ ''"] ?: emptyMap()'',
            ''            '',
            ''            // Get inputs from connected nodes'',
            inputMappings,
            ''            '',
            ''            // Execute node logic'',
            generateNodeLogic p node,
            ''            '',
            ''            // Store outputs'',
            outputAssignments,
            ''            '',
            ''        } catch (e: Exception) {'',
            ''            throw RuntimeException("Node '' @ [CHR 0x27] @ label (data node) @ [CHR 0x27] @ '' execution failed: ${e.message}", e)'',
            ''        }'',
            ''    }''])\<close>

text \<open>
  \<^verbatim>\<open>this.pipeline.nodes.find(n => n.id === nodeId)!\<close> is \<^verbatim>\<open>undefined\<close> for an id that
  no node has; the read of its first property then throws.
\<close>

definition generateClassBody :: "Pipeline \<Rightarrow> string list \<Rightarrow> js_error + string" where
  "generateClassBody p executionOrder =
     (case mapResult
             (\<lambda>nodeId. case find (\<lambda>n. node_id n = nodeId) (nodes p) of
                         None \<Rightarrow> Inl (JsError (''Cannot read properties of undefined (reading '' @ [CHR 0x27] @ ''id'' @ [CHR 0x27] @ '')''))
                       | Some node \<Rightarrow> Inr (generateNodeMethod p node))
             executionOrder of
        Inl e \<Rightarrow> Inl e
      | Inr methods \<Rightarrow> Inr (join (newline @ newline) methods))"

definition generateExecutionSequence :: "'ports PipelineOf \<Rightarrow> string list \<Rightarrow> js_error + string" where
  "generateExecutionSequence p executionOrder =
     (case mapResult
             (\<lambda>nodeId. case find (\<lambda>n. node_id n = nodeId) (nodes p) of
                         None \<Rightarrow> Inl (JsError (''Cannot read properties of undefined (reading '' @ [CHR 0x27] @ ''data'' @ [CHR 0x27] @ '')''))
                       | Some node \<Rightarrow>
                           Inr (join newline
                                  [''            // Execute: '' @ label (data node),
                                   ''            executeNode_'' @ replaceNonAlphaNumeric nodeId @ ''()'']))
             executionOrder of
        Inl e \<Rightarrow> Inl e
      | Inr calls \<Rightarrow> Inr (join (newline @ newline) calls))"

definition generateOutputExtraction :: "Pipeline \<Rightarrow> string" where
  \<open>generateOutputExtraction p =
     (let outputNodes = filter (\<lambda>node. data_type (data node) = OUTPUT) (nodes p)
      in join newline
           (map (\<lambda>node.
                   let outputPort = (case outputs (data node) of
                                       [] \<Rightarrow> ''output''
                                     | first # _ \<Rightarrow> orDefault (Some (port_id first)) ''output'')
                   in ''        finalOutputs["'' @ label (data node) @ ''"] = nodeOutputs["'' @ node_id node @ ''_'' @ outputPort @ ''"] ?: ""'')
              outputNodes))\<close>

text \<open>
  \<^verbatim>\<open>CodeGenContext\<close>, and the generator object with its two private fields.
\<close>

record 'ports ContextOf =
  context_pipeline :: "'ports PipelineOf"
  context_imports :: "string list"
  context_dependencies :: "string list"
  kotlinVersion :: string
  targetPackage :: string

record 'ports GeneratorOf =
  pipeline :: "'ports PipelineOf"
  generator_context :: "'ports ContextOf"

type_synonym CodeGenContext = "Port list ContextOf"

type_synonym CodeGenerator = "Port list GeneratorOf"

definition addRequiredImports :: "'ports GeneratorOf \<Rightarrow> 'ports GeneratorOf" where
  "addRequiredImports g =
     g\<lparr>generator_context := (generator_context g)\<lparr>context_imports :=
          [''import android.app.Application'',
           ''import com.google.ai.edge.gallery.rag.RagPipeline'']\<rparr>\<rparr>"

definition generateBuildGradle :: string where
  \<open>generateBuildGradle =
     (let dependencyLines =
            [''implementation("com.google.ai.edge:local-agents-rag:1.0.0")'',
             ''implementation("androidx.lifecycle:lifecycle-viewmodel-ktx:2.7.0")'']
      in join newline
           [''dependencies {'',
            ''    '' @ join (newline @ ''    '') dependencyLines,
            ''}''])\<close>

text \<open>
  The class template of \<^verbatim>\<open>generateKotlinCode\<close>, line by line, in three parts: the
  lines above the line of the generation time, that line, and the lines below it.
  \<open>timestamp\<close> is the text \<^verbatim>\<open>new Date().toISOString()\<close> gives when the template is
  built.
\<close>

definition kotlinHeaderLines :: "string \<Rightarrow> string \<Rightarrow> string \<Rightarrow> nat \<Rightarrow> nat \<Rightarrow> string list" where
  \<open>kotlinHeaderLines package importLines pipelineName nodeCount edgeCount =
     [''package '' @ package,
      [],
      importLines,
      [],
      ''/**'',
      '' * Generated RAG Pipeline: '' @ pipelineName,
      '' * Nodes: '' @ showNat nodeCount,
      '' * Edges: '' @ showNat edgeCount]\<close>

definition generatedAtLine :: "string \<Rightarrow> string" where
  "generatedAtLine timestamp = '' * Generated at: '' @ timestamp"

definition kotlinClassLines :: "string \<Rightarrow> string \<Rightarrow> string \<Rightarrow> string \<Rightarrow> string list" where
  \<open>kotlinClassLines nodeConfigurations classBody executionSequence outputExtraction =
     ['' */'',
      ''class GeneratedRagPipeline private constructor(private val application: Application) {'',
      ''    '',
      ''    companion object {'',
      ''        @Volatile'',
      ''        private var INSTANCE: GeneratedRagPipeline? = null'',
      ''        '',
      ''        fun getInstance(application: Application): GeneratedRagPipeline {'',
      ''            return INSTANCE ?: synchronized(this) {'',
      ''                INSTANCE ?: GeneratedRagPipeline(application).also { INSTANCE = it }'',
      ''            }'',
      ''        }'',
      ''    }'',
      ''    '',
      ''    // Node execution variables'',
      ''    private val nodeOutputs = mutableMapOf<String, Any>()'',
      ''    private val nodeConfigs = mutableMapOf<String, Map<String, Any>>()'',
      ''    '',
      ''    // RAG Components'',
      ''    private lateinit var ragPipeline: RagPipeline'',
      ''    '',
      ''    init {'',
      ''        initializeComponents()'',
      ''        setupNodeConfigurations()'',
      ''    }'',
      ''    '',
      ''    private fun initializeComponents() {'',
      ''        // Initialize RAG components'',
      ''        ragPipeline = RagPipeline.getInstance(application)'',
      ''    }'',
      ''    '',
      ''    private fun setupNodeConfigurations() {'',
      nodeConfigurations,
      ''    }'',
      ''    '',
      classBody,
      ''    '',
      ''    /**'',
      ''     * Execute the complete pipeline'',
      ''     */'',
      ''    fun executePipeline(input: Map<String, Any>): Map<String, Any> {'',
      ''        try {'',
      ''            // Clear previous outputs'',
      ''            nodeOutputs.clear()'',
      ''            '',
      ''            // Set initial inputs'',
      ''            input.forEach { (key, value) ->'',
      ''                nodeOutputs[key] = value'',
      ''            }'',
      ''            '',
      ''            // Execute nodes in topological order'',
      executionSequence,
      ''            '',
      ''            // Return final outputs'',
      ''            return extractFinalOutputs()'',
      ''            '',
      ''        } catch (e: Exception) {'',
      ''            throw RuntimeException("Pipeline execution failed: ${e.message}", e)'',
      ''        }'',
      ''    }'',
      ''    '',
      ''    private fun extractFinalOutputs(): Map<String, Any> {'',
      ''        val finalOutputs = mutableMapOf<String, Any>()'',
      ''        '',
      ''        // Extract outputs from output nodes'',
      outputExtraction,
      ''        '',
      ''        return finalOutputs'',
      ''    }'',
      ''}'']\<close>

definition kotlinTemplate ::
  "string \<Rightarrow> string \<Rightarrow> string \<Rightarrow> nat \<Rightarrow> nat \<Rightarrow> string \<Rightarrow> string \<Rightarrow> string \<Rightarrow> string \<Rightarrow> string \<Rightarrow> string list"
where
  "kotlinTemplate package importLines pipelineName nodeCount edgeCount timestamp
       nodeConfigurations classBody executionSequence outputExtraction =
     kotlinHeaderLines package importLines pipelineName nodeCount edgeCount
     @ [generatedAtLine timestamp]
     @ kotlinClassLines nodeConfigurations classBody executionSequence outputExtraction"

text \<open>
  \<^verbatim>\<open>generateKotlinCode\<close> sets the imports of the context, builds the class body, and
  then fills the template from top to bottom; it returns the text or the error thrown on
  the way, and the generator as the call leaves it.
\<close>

definition generateKotlinCode ::
  "CodeGenerator \<Rightarrow> string list \<Rightarrow> string \<Rightarrow> (js_error + string) \<times> CodeGenerator"
where
  "generateKotlinCode g executionOrder timestamp =
     (let g' = addRequiredImports g;
          importLines = join newline (context_imports (generator_context g'));
          p = pipeline g'
      in (case generateClassBody p executionOrder of
            Inl e \<Rightarrow> Inl e
          | Inr classBody \<Rightarrow>
              (case generateNodeConfigurations p of
                 Inl e \<Rightarrow> Inl e
               | Inr nodeConfigurations \<Rightarrow>
                   (case generateExecutionSequence p executionOrder of
                      Inl e \<Rightarrow> Inl e
                    | Inr executionSequence \<Rightarrow>
                        Inr (join newline
                               (kotlinTemplate (targetPackage (generator_context g')) importLines (name p)
                                  (length (nodes p)) (length (edges p)) timestamp
                                  nodeConfigurations classBody executionSequence
                                  (generateOutputExtraction p))))),
          g'))"

definition complexityWarning :: string where
  "complexityWarning = ''Pipeline has many processing nodes - consider optimizing for performance''"

definition noConfigurationWarning :: "string \<Rightarrow> string" where
  "noConfigurationWarning nodeLabel = ''Node '' @ [CHR 0x27] @ nodeLabel @ [CHR 0x27] @ '' has no configuration - using defaults''"

definition getWarnings :: "'ports PipelineOf \<Rightarrow> string list" where
  "getWarnings p =
     (let warnings = [];
          processingNodes = filter (\<lambda>n. data_type (data n) = PROCESSING) (nodes p);
          warnings = (if length processingNodes > 10 then warnings @ [complexityWarning] else warnings)
      in foldl (\<lambda>warnings node.
                  if length (config (data node)) = 0
                  then warnings @ [noConfigurationWarning (label (data node))]
                  else warnings)
           warnings (nodes p))"

section \<open>Compilation\<close>

text \<open>
  \<^verbatim>\<open>GeneratedCode\<close>, the result of \<^verbatim>\<open>generate\<close>: an optional field that an object
  literal leaves out is \<open>None\<close>.
\<close>

record GeneratedCode =
  success :: bool
  kotlinCode :: "string option"
  buildGradle :: "string option"
  errors :: "string list"
  warnings :: "string list"

definition circularDependencyError :: string where
  "circularDependencyError = ''Pipeline contains circular dependencies''"

definition codeGenerationFailed :: "js_error \<Rightarrow> string" where
  "codeGenerationFailed error =
     ''Code generation failed: ''
       @ (case error of JsError message \<Rightarrow> message | NonError \<Rightarrow> ''Unknown error'')"

text \<open>
  \<^verbatim>\<open>generate\<close>, with its \<^verbatim>\<open>try\<close> and \<^verbatim>\<open>catch\<close>: an error thrown while the code is
  generated becomes a result. The second component is the generator after the call.
\<close>

definition generate :: "CodeGenerator \<Rightarrow> string \<Rightarrow> GeneratedCode \<times> CodeGenerator" where
  "generate g timestamp =
     (let validationErrors = validatePipeline (pipeline g)
      in if length validationErrors > 0
         then (\<lparr>success = False, kotlinCode = None, buildGradle = None,
                 errors = validationErrors, warnings = []\<rparr>, g)
         else (case topologicalSort (pipeline g) of
                 None \<Rightarrow>
                   (\<lparr>success = False, kotlinCode = None, buildGradle = None,
                      errors = [circularDependencyError], warnings = []\<rparr>, g)
               | Some executionOrder \<Rightarrow>
                   (case generateKotlinCode g executionOrder timestamp of
                      (Inl error, g') \<Rightarrow>
                        (\<lparr>success = False, kotlinCode = None, buildGradle = None,
                           errors = [codeGenerationFailed error], warnings = []\<rparr>, g')
                    | (Inr code, g') \<Rightarrow>
                        (\<lparr>success = True, kotlinCode = Some code,
                           buildGradle = Some generateBuildGradle,
                           errors = [], warnings = getWarnings (pipeline g')\<rparr>, g'))))"

subsection \<open>From the nodes and edges of the editor\<close>

text \<open>
  \<^verbatim>\<open>generateCodeFromPipeline\<close> takes the nodes and edges of React Flow. The \<^verbatim>\<open>data\<close> of
  such a node is a \<^verbatim>\<open>Record<string, unknown>\<close>, and \<^verbatim>\<open>buildPipeline\<close> casts what it finds
  there: a field that is missing or falsy gets its default, any other value is kept as
  it is. So a port field of the pipeline holds an array of ports, or a truthy value
  that is no array; \<open>NotAnArray\<close> stands for one without the properties \<^verbatim>\<open>find\<close>,
  \<^verbatim>\<open>map\<close> and \<^verbatim>\<open>0\<close>, such as \<^verbatim>\<open>{}\<close>. The other fields are taken at the type of their
  cast.
\<close>

datatype PortsValue = PortArray "Port list" | NotAnArray

text \<open>The \<^verbatim>\<open>TypeError\<close> of a call of a property that is \<^verbatim>\<open>undefined\<close>.\<close>

definition notAFunction :: "string \<Rightarrow> js_error" where
  "notAFunction callee = JsError (callee @ '' is not a function'')"

text \<open>
  The nodes and edges that \<^verbatim>\<open>buildPipeline\<close> reads; every field of \<^verbatim>\<open>node.data\<close> may be
  missing. \<open>now\<close> is the reading of the clock, in milliseconds.
\<close>

record FlowNodeData =
  flow_type :: "NodeType option"
  flow_label :: "string option"
  flow_description :: "string option"
  flow_icon :: "string option"
  flow_inputs :: "PortsValue option"
  flow_outputs :: "PortsValue option"
  flow_config :: "Config option"

record FlowNode =
  flow_node_id :: string
  flow_data :: "FlowNodeData option"

record FlowEdge =
  flow_edge_id :: string
  flow_source :: string
  flow_target :: string
  flow_sourceHandle :: "string option"
  flow_targetHandle :: "string option"

definition nodeTypeOrDefault :: "NodeType option \<Rightarrow> NodeType" where
  "nodeTypeOrDefault t =
     (case t of None \<Rightarrow> PROCESSING | Some (OtherType []) \<Rightarrow> PROCESSING | Some nodeType \<Rightarrow> nodeType)"

definition buildPipelineNode :: "FlowNode \<Rightarrow> PortsValue NodeOf" where
  "buildPipelineNode node =
     \<lparr>node_id = flow_node_id node,
      node_type = nodeTypeOrDefault (Option.bind (flow_data node) flow_type),
      data = \<lparr>data_id = flow_node_id node,
               data_type = nodeTypeOrDefault (Option.bind (flow_data node) flow_type),
               label = orDefault (Option.bind (flow_data node) flow_label) ''Unknown Node'',
               description = orDefault (Option.bind (flow_data node) flow_description) [],
               icon = orDefault (Option.bind (flow_data node) flow_icon) ''Circle'',
               inputs = (case Option.bind (flow_data node) flow_inputs of
                           None \<Rightarrow> PortArray [] | Some ports \<Rightarrow> ports),
               outputs = (case Option.bind (flow_data node) flow_outputs of
                            None \<Rightarrow> PortArray [] | Some ports \<Rightarrow> ports),
               config = (case Option.bind (flow_data node) flow_config of None \<Rightarrow> [] | Some cfg \<Rightarrow> cfg)\<rparr>\<rparr>"

text \<open>
  \<^verbatim>\<open>sourceNode?.data.outputs.find(...)\<close>: the optional chain guards a missing source
  node only, the call of \<^verbatim>\<open>find\<close> throws when the value has no such method.
\<close>

definition inferDataType :: "FlowEdge \<Rightarrow> PortsValue NodeOf list \<Rightarrow> js_error + DataType" where
  "inferDataType edge pipelineNodes =
     (case find (\<lambda>n. node_id n = flow_source edge) pipelineNodes of
        None \<Rightarrow> Inr TEXT
      | Some sourceNode \<Rightarrow>
          (case outputs (data sourceNode) of
             NotAnArray \<Rightarrow> Inl (notAFunction ''sourceNode?.data.outputs.find'')
           | PortArray ports \<Rightarrow>
               (case find (\<lambda>port. Some (port_id port) = flow_sourceHandle edge) ports of
                  None \<Rightarrow> Inr TEXT
                | Some sourcePort \<Rightarrow> Inr (dataType sourcePort))))"

definition buildPipeline ::
  "FlowNode list \<Rightarrow> FlowEdge list \<Rightarrow> string \<Rightarrow> nat \<Rightarrow> js_error + PortsValue PipelineOf"
where
  "buildPipeline flowNodes flowEdges pipelineName now =
     (let pipelineNodes = map buildPipelineNode flowNodes
      in case mapResult (\<lambda>edge.
              case inferDataType edge pipelineNodes of
                Inl e \<Rightarrow> Inl e
              | Inr inferred \<Rightarrow>
                  Inr \<lparr>edge_id = flow_edge_id edge, source = flow_source edge, target = flow_target edge,
                       sourceHandle = flow_sourceHandle edge, targetHandle = flow_targetHandle edge,
                       edge_sourcePort = orDefault (flow_sourceHandle edge) ''output'',
                       edge_targetPort = orDefault (flow_targetHandle edge) ''input'',
                       edge_dataType = inferred,
                       validated = True\<rparr>) flowEdges of
           Inl e \<Rightarrow> Inl e
         | Inr pipelineEdges \<Rightarrow>
             Inr \<lparr>pipeline_id = ''pipeline-'' @ showNat now,
                  name = pipelineName,
                  pipeline_description = ''Generated pipeline with '' @ showNat (length flowNodes) @ '' nodes and ''
                    @ showNat (length flowEdges) @ '' connections'',
                  version = ''1.0.0'',
                  nodes = pipelineNodes,
                  edges = pipelineEdges,
                  createdAt = now,
                  updatedAt = now,
                  isValid = True,
                  validationErrors = []\<rparr>)"

text \<open>
  The constructor; a missing \<^verbatim>\<open>pipelineName\<close> is the default of the parameter. What
  \<^verbatim>\<open>buildPipeline\<close> throws leaves the constructor.
\<close>

definition newCodeGenerator ::
  "FlowNode list \<Rightarrow> FlowEdge list \<Rightarrow> string option \<Rightarrow> nat \<Rightarrow> js_error + PortsValue GeneratorOf"
where
  "newCodeGenerator flowNodes flowEdges pipelineName now =
     (case buildPipeline flowNodes flowEdges
             (case pipelineName of None \<Rightarrow> ''Generated Pipeline'' | Some n \<Rightarrow> n) now of
        Inl e \<Rightarrow> Inl e
      | Inr p \<Rightarrow>
          Inr \<lparr>pipeline = p,
               generator_context = \<lparr>context_pipeline = p, context_imports = [], context_dependencies = [],
                           kotlinVersion = ''1.9.10'',
                           targetPackage = ''com.google.ai.edge.gallery.rag.generated''\<rparr>\<rparr>)"

subsection \<open>The methods on a pipeline as cast\<close>

text \<open>
  The methods that read a port field, as they run on the pipeline of the constructor:
  the same statements as above, with the call of \<^verbatim>\<open>find\<close> or \<^verbatim>\<open>map\<close> on a port field
  throwing when the field holds no array. The methods that read no port field are the
  ones above.
\<close>

definition validateConnection_any :: "PortsValue PipelineOf \<Rightarrow> PipelineEdge \<Rightarrow> js_error + string list" where
  "validateConnection_any p edge =
     (case find (\<lambda>n. node_id n = source edge) (nodes p) of
        None \<Rightarrow> Inr [invalidConnectionError (source edge) (target edge)]
      | Some sourceNode \<Rightarrow>
          (case find (\<lambda>n. node_id n = target edge) (nodes p) of
             None \<Rightarrow> Inr [invalidConnectionError (source edge) (target edge)]
           | Some targetNode \<Rightarrow>
               (case outputs (data sourceNode) of
                  NotAnArray \<Rightarrow> Inl (notAFunction ''sourceNode.data.outputs.find'')
                | PortArray sourcePorts \<Rightarrow>
                    (case inputs (data targetNode) of
                       NotAnArray \<Rightarrow> Inl (notAFunction ''targetNode.data.inputs.find'')
                     | PortArray targetPorts \<Rightarrow>
                         (case find (\<lambda>port. Some (port_id port) = sourceHandle edge) sourcePorts of
                            None \<Rightarrow> Inr []
                          | Some sourcePort \<Rightarrow>
                              (case find (\<lambda>port. Some (port_id port) = targetHandle edge) targetPorts of
                                 None \<Rightarrow> Inr []
                               | Some targetPort \<Rightarrow>
                                   if \<not> isDataTypeCompatible (dataType sourcePort) (dataType targetPort)
                                   then Inr [incompatibleTypesError (dataType sourcePort) (dataType targetPort)
                                               (label (data sourceNode)) (label (data targetNode))]
                                   else Inr []))))))"

definition validatePipeline_any :: "PortsValue PipelineOf \<Rightarrow> js_error + string list" where
  "validatePipeline_any p =
     (let errors = [];
          inputNodes = filter (\<lambda>node. data_type (data node) = INPUT) (nodes p);
          errors = (if length inputNodes = 0 then errors @ [missingInputError] else errors);
          outputNodes = filter (\<lambda>node. data_type (data node) = OUTPUT) (nodes p);
          errors = (if length outputNodes = 0 then errors @ [missingOutputError] else errors)
      in foldl (\<lambda>result edge.
                  case result of
                    Inl e \<Rightarrow> Inl e
                  | Inr collected \<Rightarrow>
                      (case validateConnection_any p edge of
                         Inl e \<Rightarrow> Inl e
                       | Inr pushed \<Rightarrow> Inr (collected @ pushed)))
           (Inr errors) (edges p))"

definition generateNodeMethod_any :: "PortsValue PipelineOf \<Rightarrow> PortsValue NodeOf \<Rightarrow> js_error + string" where
  \<open>generateNodeMethod_any p node =
     (let methodName = ''executeNode_'' @ replaceNonAlphaNumeric (node_id node);
          inputConnections = filter (\<lambda>edge. target edge = node_id node) (edges p);
          inputMappings = join newline
            (map (\<lambda>edge.
                    let sourceOutput = orDefault (sourceHandle edge) ''output'';
                        targetInput = orDefault (targetHandle edge) ''input''
                    in ''        val '' @ targetInput @ '' = nodeOutputs["'' @ source edge @ ''_'' @ sourceOutput @ ''"]'')
               inputConnections)
      in case outputs (data node) of
           NotAnArray \<Rightarrow> Inl (notAFunction ''node.data.outputs.map'')
         | PortArray ports \<Rightarrow>
             (let outputAssignments = join newline
                    (map (\<lambda>output. ''        nodeOutputs["'' @ node_id node @ ''_'' @ port_id output @ ''"] = '' @ port_id output @ ''Result'')
                       ports)
              in Inr (join newline
                   [''    /**'',
                    ''     * Execute '' @ label (data node),
                    ''     * '' @ description (data node),
                    ''     */'',
                    ''    private fun '' @ methodName @ ''() {'',
                    ''        try {'',
                    ''            val config = nodeConfigs["'' @ node_id node @ ''"] ?: emptyMap()'',
                    ''            '',
                    ''            // Get inputs from connected nodes'',
                    inputMappings,
                    ''            '',
                    ''            // Execute node logic'',
                    generateNodeLogic p node,
                    ''            '',
                    ''            // Store outputs'',
                    outputAssignments,
                    ''            '',
                    ''        } catch (e: Exception) {'',
                    ''            throw RuntimeException("Node '' @ [CHR 0x27] @ label (data node) @ [CHR 0x27] @ '' execution failed: ${e.message}", e)'',
                    ''        }'',
                    ''    }''])))\<close>

definition generateClassBody_any :: "PortsValue PipelineOf \<Rightarrow> string list \<Rightarrow> js_error + string" where
  "generateClassBody_any p executionOrder =
     (case mapResult
             (\<lambda>nodeId. case find (\<lambda>n. node_id n = nodeId) (nodes p) of
                         None \<Rightarrow> Inl (JsError (''Cannot read properties of undefined (reading '' @ [CHR 0x27] @ ''id'' @ [CHR 0x27] @ '')''))
                       | Some node \<Rightarrow> generateNodeMethod_any p node)
             executionOrder of
        Inl e \<Rightarrow> Inl e
      | Inr methods \<Rightarrow> Inr (join (newline @ newline) methods))"

text \<open>\<^verbatim>\<open>node.data.outputs[0]?.id\<close> is \<^verbatim>\<open>undefined\<close> when the value has no property \<^verbatim>\<open>0\<close>.\<close>

definition generateOutputExtraction_any :: "PortsValue PipelineOf \<Rightarrow> string" where
  \<open>generateOutputExtraction_any p =
     (let outputNodes = filter (\<lambda>node. data_type (data node) = OUTPUT) (nodes p)
      in join newline
           (map (\<lambda>node.
                   let outputPort = (case outputs (data node) of
                                       NotAnArray \<Rightarrow> ''output''
                                     | PortArray [] \<Rightarrow> ''output''
                                     | PortArray (first # _) \<Rightarrow> orDefault (Some (port_id first)) ''output'')
                   in ''        finalOutputs["'' @ label (data node) @ ''"] = nodeOutputs["'' @ node_id node @ ''_'' @ outputPort @ ''"] ?: ""'')
              outputNodes))\<close>

definition generateKotlinCode_any ::
  "PortsValue GeneratorOf \<Rightarrow> string list \<Rightarrow> string \<Rightarrow> (js_error + string) \<times> PortsValue GeneratorOf"
where
  "generateKotlinCode_any g executionOrder timestamp =
     (let g' = addRequiredImports g;
          importLines = join newline (context_imports (generator_context g'));
          p = pipeline g'
      in (case generateClassBody_any p executionOrder of
            Inl e \<Rightarrow> Inl e
          | Inr classBody \<Rightarrow>
              (case generateNodeConfigurations p of
                 Inl e \<Rightarrow> Inl e
               | Inr nodeConfigurations \<Rightarrow>
                   (case generateExecutionSequence p executionOrder of
                      Inl e \<Rightarrow> Inl e
                    | Inr executionSequence \<Rightarrow>
                        Inr (join newline
                               (kotlinTemplate (targetPackage (generator_context g')) importLines (name p)
                                  (length (nodes p)) (length (edges p)) timestamp
                                  nodeConfigurations classBody executionSequence
                                  (generateOutputExtraction_any p))))),
          g'))"

text \<open>
  \<^verbatim>\<open>generate\<close> on the generator of the constructor. The validation runs inside the
  \<^verbatim>\<open>try\<close> as well: what it throws becomes a result too.
\<close>

definition generate_any :: "PortsValue GeneratorOf \<Rightarrow> string \<Rightarrow> GeneratedCode \<times> PortsValue GeneratorOf" where
  "generate_any g timestamp =
     (case validatePipeline_any (pipeline g) of
        Inl error \<Rightarrow>
          (\<lparr>success = False, kotlinCode = None, buildGradle = None,
             errors = [codeGenerationFailed error], warnings = []\<rparr>, g)
      | Inr returned \<Rightarrow>
          let validationErrors = returned
          in
          if length validationErrors > 0
          then (\<lparr>success = False, kotlinCode = None, buildGradle = None,
                  errors = validationErrors, warnings = []\<rparr>, g)
          else (case topologicalSort (pipeline g) of
                  None \<Rightarrow>
                    (\<lparr>success = False, kotlinCode = None, buildGradle = None,
                       errors = [circularDependencyError], warnings = []\<rparr>, g)
                | Some executionOrder \<Rightarrow>
                    (case generateKotlinCode_any g executionOrder timestamp of
                       (Inl error, g') \<Rightarrow>
                         (\<lparr>success = False, kotlinCode = None, buildGradle = None,
                            errors = [codeGenerationFailed error], warnings = []\<rparr>, g')
                     | (Inr code, g') \<Rightarrow>
                         (\<lparr>success = True, kotlinCode = Some code,
                            buildGradle = Some generateBuildGradle,
                            errors = [], warnings = getWarnings (pipeline g')\<rparr>, g'))))"

text \<open>
  The exported function: it constructs the generator and then calls \<^verbatim>\<open>generate\<close>. The
  constructor runs before the \<^verbatim>\<open>try\<close> of \<^verbatim>\<open>generate\<close> is entered, so what it throws
  leaves the function: \<open>Inl\<close> is an exception that reaches the caller, \<open>Inr\<close> a result
  that is returned.
\<close>

definition generateCodeFromPipeline ::
  "FlowNode list \<Rightarrow> FlowEdge list \<Rightarrow> string option \<Rightarrow> nat \<Rightarrow> string \<Rightarrow> js_error + GeneratedCode"
where
  "generateCodeFromPipeline flowNodes flowEdges pipelineName now timestamp =
     (case newCodeGenerator flowNodes flowEdges pipelineName now of
        Inl error \<Rightarrow> Inl error
      | Inr generator \<Rightarrow> Inr (fst (generate_any generator timestamp)))"

text \<open>
  A pipeline of the declared type, seen as a pipeline as cast: every port field holds an
  array.
\<close>

definition castNode :: "PipelineNode \<Rightarrow> PortsValue NodeOf" where
  "castNode node =
     \<lparr>node_id = node_id node, node_type = node_type node,
      data = \<lparr>data_id = data_id (data node), data_type = data_type (data node),
               label = label (data node), description = description (data node),
               icon = icon (data node),
               inputs = PortArray (inputs (data node)),
               outputs = PortArray (outputs (data node)),
               config = config (data node)\<rparr>\<rparr>"

definition castPipeline :: "Pipeline \<Rightarrow> PortsValue PipelineOf" where
  "castPipeline p =
     \<lparr>pipeline_id = pipeline_id p, name = name p, pipeline_description = pipeline_description p,
      version = version p, nodes = map castNode (nodes p), edges = edges p,
      createdAt = createdAt p, updatedAt = updatedAt p, isValid = isValid p,
      validationErrors = validationErrors p\<rparr>"

definition castGenerator :: "CodeGenerator \<Rightarrow> PortsValue GeneratorOf" where
  "castGenerator g =
     \<lparr>pipeline = castPipeline (pipeline g),
      generator_context =
        \<lparr>context_pipeline = castPipeline (context_pipeline (generator_context g)),
         context_imports = context_imports (generator_context g),
         context_dependencies = context_dependencies (generator_context g),
         kotlinVersion = kotlinVersion (generator_context g),
         targetPackage = targetPackage (generator_context g)\<rparr>\<rparr>"

section \<open>Vocabulary of the properties\<close>

text \<open>
  The directed graph the edges induce, and the order of two ids in a list: \<open>precedes xs a b\<close>
  holds when \<open>a\<close> stands at a position of \<open>xs\<close> and \<open>b\<close> at a later one.
\<close>

definition edge_rel :: "PipelineEdge list \<Rightarrow> (string \<times> string) set" where
  "edge_rel es = (\<lambda>edge. (source edge, target edge)) ` set es"

fun precedes :: "string list \<Rightarrow> string \<Rightarrow> string \<Rightarrow> bool" where
  "precedes [] a b = False"
| "precedes (x # xs) a b = ((x = a \<and> b \<in> set xs) \<or> precedes xs a b)"

text \<open>
  What a successful call of \<open>visit\<close> does to the state: \<open>visiting\<close> is restored, and
  the ids appended to \<open>result\<close> are the ones added to \<open>visited\<close>, each of them a
  (reflexive, transitive) dependency of one of the roots. \<open>sort_inv\<close> is the invariant of
  the traversal.
\<close>

definition extends :: "PipelineEdge list \<Rightarrow> string set \<Rightarrow> SortState \<Rightarrow> SortState \<Rightarrow> bool" where
  "extends es roots s s' \<longleftrightarrow>
     visiting s' = visiting s \<and>
     (\<exists>new. result s' = result s @ new \<and> visited s' = visited s \<union> set new \<and>
        (\<forall>x\<in>set new. \<exists>r\<in>roots. (x, r) \<in> (edge_rel es)\<^sup>*))"

definition sort_inv :: "PipelineEdge list \<Rightarrow> SortState \<Rightarrow> bool" where
  "sort_inv es s \<longleftrightarrow>
     set (result s) = visited s \<and> distinct (result s) \<and> visited s \<inter> visiting s = {} \<and>
     (\<forall>edge\<in>set es. target edge \<in> visited s \<longrightarrow> precedes (result s) (source edge) (target edge))"

section \<open>Example pipelines\<close>

definition examplePort :: "string \<Rightarrow> DataType \<Rightarrow> Port" where
  "examplePort i t = \<lparr>port_id = i, port_label = i, dataType = t, required = True\<rparr>"

definition exampleNode :: "string \<Rightarrow> NodeType \<Rightarrow> string \<Rightarrow> Port list \<Rightarrow> Port list \<Rightarrow> PipelineNode" where
  "exampleNode i t l ins outs =
     \<lparr>node_id = i, node_type = t,
      data = \<lparr>data_id = i, data_type = t, label = l, description = [], icon = ''Circle'',
               inputs = ins, outputs = outs, config = []\<rparr>\<rparr>"

definition exampleEdge :: "string \<Rightarrow> string \<Rightarrow> string option \<Rightarrow> string \<Rightarrow> string option \<Rightarrow> PipelineEdge" where
  "exampleEdge i s sh t th =
     \<lparr>edge_id = i, source = s, target = t, sourceHandle = sh, targetHandle = th,
      edge_sourcePort = orDefault sh ''output'', edge_targetPort = orDefault th ''input'',
      edge_dataType = TEXT, validated = True\<rparr>"

definition examplePipeline :: "PipelineNode list \<Rightarrow> PipelineEdge list \<Rightarrow> Pipeline" where
  "examplePipeline ns es =
     \<lparr>pipeline_id = ''pipeline-0'', name = ''Generated Pipeline'', pipeline_description = [],
      version = ''1.0.0'', nodes = ns, edges = es, createdAt = 0, updatedAt = 0,
      isValid = True, validationErrors = []\<rparr>"

text \<open>A PDF output wired to a number input (the fifth validation test case).\<close>

definition typeMismatchPipeline :: Pipeline where
  "typeMismatchPipeline = examplePipeline
     [exampleNode ''input1'' INPUT ''PDF Input'' [] [examplePort ''pdf'' PDF],
      exampleNode ''output1'' OUTPUT ''Number Output'' [examplePort ''number'' NUMBER] []]
     [exampleEdge ''edge1'' ''input1'' (Some ''pdf'') ''output1'' (Some ''number'')]"

text \<open>Both nodes exist, but the source node has no output port \<open>missing\<close>.\<close>

definition danglingPortPipeline :: Pipeline where
  "danglingPortPipeline = examplePipeline
     [exampleNode ''input1'' INPUT ''Text Input'' [] [examplePort ''text'' TEXT],
      exampleNode ''output1'' OUTPUT ''Text Output'' [examplePort ''text'' TEXT] []]
     [exampleEdge ''edge1'' ''input1'' (Some ''missing'') ''output1'' (Some ''text'')]"

text \<open>The edge has no target handle: no input port of the target node is found.\<close>

definition danglingTargetPortPipeline :: Pipeline where
  "danglingTargetPortPipeline = examplePipeline
     [exampleNode ''input1'' INPUT ''Text Input'' [] [examplePort ''text'' TEXT],
      exampleNode ''output1'' OUTPUT ''Text Output'' [examplePort ''text'' TEXT] []]
     [exampleEdge ''edge1'' ''input1'' (Some ''text'') ''output1'' None]"

text \<open>The source node \<open>ghost\<close> of the edge is not declared.\<close>

definition danglingNodePipeline :: Pipeline where
  "danglingNodePipeline = examplePipeline
     [exampleNode ''input1'' INPUT ''Text Input'' [] [examplePort ''text'' TEXT],
      exampleNode ''output1'' OUTPUT ''Text Output'' [examplePort ''text'' TEXT] []]
     [exampleEdge ''edge1'' ''ghost'' (Some ''text'') ''output1'' (Some ''text'')]"

text \<open>A chain of three nodes, declared against the direction of the edges.\<close>

definition chainPipeline :: Pipeline where
  "chainPipeline = examplePipeline
     [exampleNode ''output1'' OUTPUT ''Text Output'' [examplePort ''text'' TEXT] [],
      exampleNode ''chunker1'' PROCESSING ''Text Chunker'' [examplePort ''text'' TEXT] [examplePort ''chunks'' CHUNKS],
      exampleNode ''input1'' INPUT ''Text Input'' [] [examplePort ''text'' TEXT]]
     [exampleEdge ''edge1'' ''input1'' (Some ''text'') ''chunker1'' (Some ''text''),
      exampleEdge ''edge2'' ''chunker1'' (Some ''chunks'') ''output1'' (Some ''text'')]"

text \<open>Three nodes \<open>a\<close>, \<open>b\<close>, \<open>c\<close> declared in this order, and the one edge from \<open>c\<close> to \<open>a\<close>.\<close>

definition tieBreakPipeline :: Pipeline where
  "tieBreakPipeline = examplePipeline
     [exampleNode ''a'' PROCESSING ''A'' [] [], exampleNode ''b'' PROCESSING ''B'' [] [],
      exampleNode ''c'' PROCESSING ''C'' [] []]
     [exampleEdge ''edge1'' ''c'' None ''a'' None]"

text \<open>A generator as the constructor builds it, and a generation time.\<close>

definition exampleGenerator :: "Pipeline \<Rightarrow> CodeGenerator" where
  "exampleGenerator p =
     \<lparr>pipeline = p,
      generator_context = \<lparr>context_pipeline = p, context_imports = [], context_dependencies = [],
                            kotlinVersion = ''1.9.10'',
                            targetPackage = ''com.google.ai.edge.gallery.rag.generated''\<rparr>\<rparr>"

text \<open>A text input wired to a text output (the first validation test case).\<close>

definition textPipeline :: Pipeline where
  "textPipeline = examplePipeline
     [exampleNode ''input1'' INPUT ''Text Input'' [] [examplePort ''text'' TEXT],
      exampleNode ''output1'' OUTPUT ''Text Output'' [examplePort ''text'' TEXT] []]
     [exampleEdge ''edge1'' ''input1'' (Some ''text'') ''output1'' (Some ''text'')]"

text \<open>The same pipeline, with a \<^verbatim>\<open>BigInt\<close> in the configuration of the input node.\<close>

definition withConfig :: "PipelineNode \<Rightarrow> Config \<Rightarrow> PipelineNode" where
  "withConfig node cfg = node\<lparr>data := (data node)\<lparr>config := cfg\<rparr>\<rparr>"

definition bigIntPipeline :: Pipeline where
  "bigIntPipeline = examplePipeline
     [withConfig (exampleNode ''input1'' INPUT ''Text Input'' [] [examplePort ''text'' TEXT])
        [(''maxLength'', OtherValue (Inl (JsError ''Do not know how to serialize a BigInt'')))],
      exampleNode ''output1'' OUTPUT ''Text Output'' [examplePort ''text'' TEXT] []]
     [exampleEdge ''edge1'' ''input1'' (Some ''text'') ''output1'' (Some ''text'')]"

text \<open>Two processing nodes that feed each other, beside an input and an output node.\<close>

definition cyclePipeline :: Pipeline where
  "cyclePipeline = examplePipeline
     [exampleNode ''input1'' INPUT ''Text Input'' [] [examplePort ''text'' TEXT],
      exampleNode ''node1'' PROCESSING ''Node 1'' [] [],
      exampleNode ''node2'' PROCESSING ''Node 2'' [] [],
      exampleNode ''output1'' OUTPUT ''Text Output'' [examplePort ''text'' TEXT] []]
     [exampleEdge ''edge1'' ''node1'' None ''node2'' None,
      exampleEdge ''edge2'' ''node2'' None ''node1'' None]"

text \<open>The two processing nodes alone (the fourth validation test case).\<close>

definition cycleOnlyPipeline :: Pipeline where
  "cycleOnlyPipeline = examplePipeline
     [exampleNode ''node1'' PROCESSING ''Node 1'' [] [],
      exampleNode ''node2'' PROCESSING ''Node 2'' [] []]
     [exampleEdge ''edge1'' ''node1'' None ''node2'' None,
      exampleEdge ''edge2'' ''node2'' None ''node1'' None]"

text \<open>Two edges that form a cycle between ids that no node has.\<close>

definition undeclaredCyclePipeline :: Pipeline where
  "undeclaredCyclePipeline = examplePipeline
     [exampleNode ''input1'' INPUT ''Text Input'' [] [examplePort ''text'' TEXT],
      exampleNode ''output1'' OUTPUT ''Text Output'' [examplePort ''text'' TEXT] []]
     [exampleEdge ''edge1'' ''ghost1'' None ''ghost2'' None,
      exampleEdge ''edge2'' ''ghost2'' None ''ghost1'' None]"

text \<open>A node whose type is none of the six members of \<^verbatim>\<open>NodeType\<close>.\<close>

definition customTypePipeline :: Pipeline where
  "customTypePipeline = examplePipeline
     [exampleNode ''input1'' INPUT ''Text Input'' [] [examplePort ''text'' TEXT],
      exampleNode ''custom1'' (OtherType ''custom'') ''Custom Step'' [] [],
      exampleNode ''output1'' OUTPUT ''Text Output'' [examplePort ''text'' TEXT] []]
     []"

definition exampleTimestamp :: string where
  "exampleTimestamp = ''2024-01-01T00:00:00.000Z''"

text \<open>
  Nodes and an edge of the editor: a text input wired to a text output, where one port
  field holds \<^verbatim>\<open>{}\<close> in place of an array. In \<open>objectOutputsNodes\<close> it is the
  \<^verbatim>\<open>outputs\<close> of the source node of the edge, in \<open>objectInputsNodes\<close> the \<^verbatim>\<open>inputs\<close> of its
  target node.
\<close>

definition flowNode :: "string \<Rightarrow> NodeType \<Rightarrow> string \<Rightarrow> PortsValue \<Rightarrow> PortsValue \<Rightarrow> FlowNode" where
  "flowNode i t l ins outs =
     \<lparr>flow_node_id = i,
      flow_data = Some \<lparr>flow_type = Some t, flow_label = Some l, flow_description = None,
                         flow_icon = None, flow_inputs = Some ins, flow_outputs = Some outs,
                         flow_config = None\<rparr>\<rparr>"

definition textEdge :: FlowEdge where
  "textEdge = \<lparr>flow_edge_id = ''edge1'', flow_source = ''input1'', flow_target = ''output1'',
               flow_sourceHandle = Some ''text'', flow_targetHandle = Some ''text''\<rparr>"

definition objectOutputsNodes :: "FlowNode list" where
  "objectOutputsNodes =
     [flowNode ''input1'' INPUT ''Text Input'' (PortArray []) NotAnArray,
      flowNode ''output1'' OUTPUT ''Text Output'' (PortArray [examplePort ''text'' TEXT]) (PortArray [])]"

definition objectInputsNodes :: "FlowNode list" where
  "objectInputsNodes =
     [flowNode ''input1'' INPUT ''Text Input'' (PortArray []) (PortArray [examplePort ''text'' TEXT]),
      flowNode ''output1'' OUTPUT ''Text Output'' NotAnArray (PortArray [])]"

section \<open>Properties of the validator\<close>

lemma foldl_append_concat:
  "foldl (\<lambda>errors edge. errors @ f edge) acc es = acc @ concat (map f es)"
  by (induction es arbitrary: acc) simp_all

lemma validatePipeline_eq:
  "validatePipeline p =
     (if filter (\<lambda>node. data_type (data node) = INPUT) (nodes p) = [] then [missingInputError] else [])
     @ (if filter (\<lambda>node. data_type (data node) = OUTPUT) (nodes p) = [] then [missingOutputError] else [])
     @ concat (map (validateConnection p) (edges p))"
  by (simp add: validatePipeline_def Let_def foldl_append_concat)

lemma validateConnection_cases:
  "d \<in> set (validateConnection p edge) \<Longrightarrow>
     d = invalidConnectionError (source edge) (target edge) \<or>
     (\<exists>st tt slab tlab. d = incompatibleTypesError st tt slab tlab \<and> \<not> isDataTypeCompatible st tt)"
  by (auto simp: validateConnection_def split: option.splits if_splits)

lemma diagnostics_distinct [simp]:
  "missingInputError \<noteq> missingOutputError"
  "missingInputError \<noteq> invalidConnectionError a b"
  "missingInputError \<noteq> incompatibleTypesError st tt slab tlab"
  "missingOutputError \<noteq> missingInputError"
  "missingOutputError \<noteq> invalidConnectionError a b"
  "missingOutputError \<noteq> incompatibleTypesError st tt slab tlab"
  "incompatibleTypesError st tt slab tlab \<noteq> missingInputError"
  "incompatibleTypesError st tt slab tlab \<noteq> missingOutputError"
  "incompatibleTypesError st tt slab tlab \<noteq> invalidConnectionError a b"
  by (simp_all add: missingInputError_def missingOutputError_def invalidConnectionError_def
      incompatibleTypesError_def)

lemma structural_not_in_connection:
  "missingInputError \<notin> set (validateConnection p edge)"
  "missingOutputError \<notin> set (validateConnection p edge)"
  using validateConnection_cases [of missingInputError p edge]
    validateConnection_cases [of missingOutputError p edge]
  by auto

lemma count_list_concat_zero:
  "(\<And>x. x \<in> set xss \<Longrightarrow> d \<notin> set x) \<Longrightarrow> count_list (concat xss) d = 0"
  by (induction xss) (simp_all add: count_list_0_iff)

lemma count_connections_structural:
  "count_list (concat (map (validateConnection p) es)) missingInputError = 0"
  "count_list (concat (map (validateConnection p) es)) missingOutputError = 0"
  by (rule count_list_concat_zero; auto simp: structural_not_in_connection)+

lemma dataTypeValue_arrow_inj:
  "dataTypeValue a @ '' -> '' @ x = dataTypeValue b @ '' -> '' @ y \<Longrightarrow> a = b"
  by (cases a; cases b; simp)

lemma dataTypeValue_paren_inj:
  "dataTypeValue a @ '' ('' @ x = dataTypeValue b @ '' ('' @ y \<Longrightarrow> a = b"
  by (cases a; cases b; simp)

lemma incompatibleTypesError_inj:
  assumes "incompatibleTypesError st tt slab tlab = incompatibleTypesError st' tt' slab' tlab'"
  shows "st = st' \<and> tt = tt'"
proof -
  from assms have 1: "dataTypeValue st @ '' -> '' @ (dataTypeValue tt @ '' ('' @ slab @ '' -> '' @ tlab @ '')'')
      = dataTypeValue st' @ '' -> '' @ (dataTypeValue tt' @ '' ('' @ slab' @ '' -> '' @ tlab' @ '')'')"
    by (simp add: incompatibleTypesError_def)
  then have st: "st = st'" by (rule dataTypeValue_arrow_inj)
  with 1 have "dataTypeValue tt @ '' ('' @ (slab @ '' -> '' @ tlab @ '')'')
      = dataTypeValue tt' @ '' ('' @ (slab' @ '' -> '' @ tlab' @ '')'')"
    by simp
  then have "tt = tt'" by (rule dataTypeValue_paren_inj)
  with st show ?thesis by simp
qed

lemma isDataTypeCompatible_iff:
  "isDataTypeCompatible s t \<longleftrightarrow> s = t \<or> t \<in> set (compatibilityRules s)"
  by (simp add: isDataTypeCompatible_def)

lemmas example_defs =
  examplePort_def exampleNode_def exampleEdge_def examplePipeline_def orDefault_def

text \<open>
  C8. \<open>validatePipeline\<close> is a total function: it returns a list for every pipeline, and
  every check runs. When no node has the type \<open>INPUT\<close> the list holds the diagnostic of
  the missing input node exactly once, and not at all otherwise; the same holds for
  \<open>OUTPUT\<close> and the diagnostic of the missing output node. So both diagnostics are in
  the list when both kinds of node are missing.
\<close>

theorem validatePipeline_structural:
  "count_list (validatePipeline p) missingInputError =
     (if filter (\<lambda>node. data_type (data node) = INPUT) (nodes p) = [] then 1 else 0)
   \<and> count_list (validatePipeline p) missingOutputError =
     (if filter (\<lambda>node. data_type (data node) = OUTPUT) (nodes p) = [] then 1 else 0)"
  by (simp add: validatePipeline_eq count_connections_structural)

text \<open>
  C2. For an edge of the pipeline whose two nodes and two ports are found, the list
  \<open>validatePipeline\<close> returns holds the diagnostic of incompatible types, with the two
  port types and the two node labels, exactly when the two port types differ and the
  compatibility rules do not list the target type under the source type. Equal types are
  accepted whatever the rules say.
\<close>

theorem validatePipeline_type_error:
  assumes "edge \<in> set (edges p)"
    and "find (\<lambda>n. node_id n = source edge) (nodes p) = Some sourceNode"
    and "find (\<lambda>n. node_id n = target edge) (nodes p) = Some targetNode"
    and "find (\<lambda>port. Some (port_id port) = sourceHandle edge) (outputs (data sourceNode)) = Some sourcePort"
    and "find (\<lambda>port. Some (port_id port) = targetHandle edge) (inputs (data targetNode)) = Some targetPort"
  shows "incompatibleTypesError (dataType sourcePort) (dataType targetPort)
             (label (data sourceNode)) (label (data targetNode)) \<in> set (validatePipeline p)
         \<longleftrightarrow> dataType sourcePort \<noteq> dataType targetPort
             \<and> dataType targetPort \<notin> set (compatibilityRules (dataType sourcePort))"
proof
  assume "incompatibleTypesError (dataType sourcePort) (dataType targetPort)
             (label (data sourceNode)) (label (data targetNode)) \<in> set (validatePipeline p)"
  then obtain e' where "e' \<in> set (edges p)"
    and "incompatibleTypesError (dataType sourcePort) (dataType targetPort)
             (label (data sourceNode)) (label (data targetNode)) \<in> set (validateConnection p e')"
    by (auto simp: validatePipeline_eq split: if_splits)
  from validateConnection_cases [OF this(2)]
  obtain st tt slab tlab where
    eq: "incompatibleTypesError (dataType sourcePort) (dataType targetPort)
             (label (data sourceNode)) (label (data targetNode)) = incompatibleTypesError st tt slab tlab"
    and nc: "\<not> isDataTypeCompatible st tt"
    by auto
  from incompatibleTypesError_inj [OF eq] nc
  show "dataType sourcePort \<noteq> dataType targetPort
             \<and> dataType targetPort \<notin> set (compatibilityRules (dataType sourcePort))"
    by (simp add: isDataTypeCompatible_iff)
next
  assume "dataType sourcePort \<noteq> dataType targetPort
             \<and> dataType targetPort \<notin> set (compatibilityRules (dataType sourcePort))"
  then have "\<not> isDataTypeCompatible (dataType sourcePort) (dataType targetPort)"
    by (simp add: isDataTypeCompatible_iff)
  with assms(2-5) have "validateConnection p edge =
     [incompatibleTypesError (dataType sourcePort) (dataType targetPort)
             (label (data sourceNode)) (label (data targetNode))]"
    by (simp add: validateConnection_def)
  with assms(1) show "incompatibleTypesError (dataType sourcePort) (dataType targetPort)
             (label (data sourceNode)) (label (data targetNode)) \<in> set (validatePipeline p)"
    by (auto simp: validatePipeline_eq intro!: bexI [of _ edge])
qed

theorem validatePipeline_type_error_witness:
  "incompatibleTypesError PDF NUMBER ''PDF Input'' ''Number Output'' \<in> set (validatePipeline typeMismatchPipeline)
   \<and> PDF \<noteq> NUMBER \<and> NUMBER \<notin> set (compatibilityRules PDF)
   \<and> validatePipeline typeMismatchPipeline
       = [''Incompatible data types: pdf -> number (PDF Input -> Number Output)'']"
proof -
  let ?edge = "exampleEdge ''edge1'' ''input1'' (Some ''pdf'') ''output1'' (Some ''number'')"
  let ?src = "exampleNode ''input1'' INPUT ''PDF Input'' [] [examplePort ''pdf'' PDF]"
  let ?tgt = "exampleNode ''output1'' OUTPUT ''Number Output'' [examplePort ''number'' NUMBER] []"
  have 1: "?edge \<in> set (edges typeMismatchPipeline)"
    by (simp add: typeMismatchPipeline_def examplePipeline_def)
  have 2: "find (\<lambda>n. node_id n = source ?edge) (nodes typeMismatchPipeline) = Some ?src"
    by (simp add: typeMismatchPipeline_def example_defs)
  have 3: "find (\<lambda>n. node_id n = target ?edge) (nodes typeMismatchPipeline) = Some ?tgt"
    by (simp add: typeMismatchPipeline_def example_defs)
  have 4: "find (\<lambda>port. Some (port_id port) = sourceHandle ?edge) (outputs (data ?src))
             = Some (examplePort ''pdf'' PDF)"
    by (simp add: example_defs)
  have 5: "find (\<lambda>port. Some (port_id port) = targetHandle ?edge) (inputs (data ?tgt))
             = Some (examplePort ''number'' NUMBER)"
    by (simp add: example_defs)
  have 6: "validatePipeline typeMismatchPipeline
       = [''Incompatible data types: pdf -> number (PDF Input -> Number Output)'']"
    by (simp add: validatePipeline_def validateConnection_def typeMismatchPipeline_def example_defs
        isDataTypeCompatible_def incompatibleTypesError_def)
  from validatePipeline_type_error [OF 1 2 3 4 5] 6 show ?thesis
    by (simp add: example_defs)
qed

lemma validateConnection_edges [simp]:
  "validateConnection (p\<lparr>edges := es\<rparr>) = validateConnection p"
  by (rule ext) (simp add: validateConnection_def cong: option.case_cong)

lemma validateConnection_missing_node:
  assumes "source edge \<notin> node_id ` set (nodes p) \<or> target edge \<notin> node_id ` set (nodes p)"
  shows "validateConnection p edge = [invalidConnectionError (source edge) (target edge)]"
proof -
  have "find (\<lambda>n. node_id n = source edge) (nodes p) = None
      \<or> find (\<lambda>n. node_id n = target edge) (nodes p) = None"
    using assms by (metis (mono_tags, lifting) find_None_iff imageI)
  then show ?thesis
    by (auto simp: validateConnection_def split: option.splits)
qed

lemma find_port_None:
  "handle \<notin> Some ` port_id ` set ports \<Longrightarrow> find (\<lambda>port. Some (port_id port) = handle) ports = None"
  by (auto simp: find_None_iff)

lemma validateConnection_missing_port:
  assumes "find (\<lambda>n. node_id n = source edge) (nodes p) = Some sourceNode"
    and "find (\<lambda>n. node_id n = target edge) (nodes p) = Some targetNode"
    and "sourceHandle edge \<notin> Some ` port_id ` set (outputs (data sourceNode))
       \<or> targetHandle edge \<notin> Some ` port_id ` set (inputs (data targetNode))"
  shows "validateConnection p edge = []"
  using assms find_port_None [of "sourceHandle edge" "outputs (data sourceNode)"]
    find_port_None [of "targetHandle edge" "inputs (data targetNode)"]
  by (auto simp: validateConnection_def split: option.splits)

lemma validatePipeline_remove_silent_edge:
  assumes "edges p = es1 @ edge # es2" and "validateConnection p edge = []"
  shows "validatePipeline p = validatePipeline (p\<lparr>edges := es1 @ es2\<rparr>)"
  using assms by (simp add: validatePipeline_eq)

text \<open>
  C3, as the code has it, for an edge of the pipeline. If its source or target node id
  is not the id of a declared node, the edge pushes exactly the invalid-connection
  diagnostic with its two node ids, and \<open>validatePipeline\<close> reports it. If both nodes are
  found and the source handle is not the id of an output port of the source node, or the
  target handle is not the id of an input port of the target node, the edge pushes
  nothing: \<open>validatePipeline\<close> returns what it returns for the pipeline without that edge.
\<close>

theorem validatePipeline_invalid_connection:
  assumes "edge \<in> set (edges p)"
  shows "(source edge \<notin> node_id ` set (nodes p) \<or> target edge \<notin> node_id ` set (nodes p)
            \<longrightarrow> validateConnection p edge = [invalidConnectionError (source edge) (target edge)]
              \<and> invalidConnectionError (source edge) (target edge) \<in> set (validatePipeline p))
       \<and> (\<forall>sourceNode targetNode.
             find (\<lambda>n. node_id n = source edge) (nodes p) = Some sourceNode
           \<and> find (\<lambda>n. node_id n = target edge) (nodes p) = Some targetNode
           \<and> (sourceHandle edge \<notin> Some ` port_id ` set (outputs (data sourceNode))
              \<or> targetHandle edge \<notin> Some ` port_id ` set (inputs (data targetNode)))
            \<longrightarrow> validateConnection p edge = []
              \<and> (\<forall>es1 es2. edges p = es1 @ edge # es2
                    \<longrightarrow> validatePipeline p = validatePipeline (p\<lparr>edges := es1 @ es2\<rparr>)))"
proof (intro conjI impI allI)
  assume "source edge \<notin> node_id ` set (nodes p) \<or> target edge \<notin> node_id ` set (nodes p)"
  then show 1: "validateConnection p edge = [invalidConnectionError (source edge) (target edge)]"
    by (rule validateConnection_missing_node)
  with assms show "invalidConnectionError (source edge) (target edge) \<in> set (validatePipeline p)"
    by (auto simp: validatePipeline_eq intro!: bexI [of _ edge])
next
  fix sourceNode targetNode
  assume "find (\<lambda>n. node_id n = source edge) (nodes p) = Some sourceNode
           \<and> find (\<lambda>n. node_id n = target edge) (nodes p) = Some targetNode
           \<and> (sourceHandle edge \<notin> Some ` port_id ` set (outputs (data sourceNode))
              \<or> targetHandle edge \<notin> Some ` port_id ` set (inputs (data targetNode)))"
  then show 2: "validateConnection p edge = []"
    using validateConnection_missing_port [of edge p sourceNode targetNode] by blast
  fix es1 es2
  assume "edges p = es1 @ edge # es2"
  then show "validatePipeline p = validatePipeline (p\<lparr>edges := es1 @ es2\<rparr>)"
    using 2 by (rule validatePipeline_remove_silent_edge)
qed

theorem validatePipeline_invalid_connection_witness:
  "''ghost'' \<notin> node_id ` set (nodes danglingNodePipeline)
   \<and> ''Invalid connection: ghost -> output1'' \<in> set (validatePipeline danglingNodePipeline)
   \<and> find (\<lambda>n. node_id n = ''input1'') (nodes danglingPortPipeline)
       = Some (exampleNode ''input1'' INPUT ''Text Input'' [] [examplePort ''text'' TEXT])
   \<and> find (\<lambda>n. node_id n = ''output1'') (nodes danglingPortPipeline)
       = Some (exampleNode ''output1'' OUTPUT ''Text Output'' [examplePort ''text'' TEXT] [])
   \<and> Some ''missing'' \<notin> Some ` port_id ` set [examplePort ''text'' TEXT]
   \<and> validateConnection danglingPortPipeline
        (exampleEdge ''edge1'' ''input1'' (Some ''missing'') ''output1'' (Some ''text'')) = []
   \<and> validatePipeline danglingPortPipeline = validatePipeline (danglingPortPipeline\<lparr>edges := []\<rparr>)
   \<and> validateConnection danglingTargetPortPipeline
        (exampleEdge ''edge1'' ''input1'' (Some ''text'') ''output1'' None) = []
   \<and> validatePipeline danglingTargetPortPipeline = validatePipeline (danglingTargetPortPipeline\<lparr>edges := []\<rparr>)"
proof -
  let ?ghost = "exampleEdge ''edge1'' ''ghost'' (Some ''text'') ''output1'' (Some ''text'')"
  let ?missing = "exampleEdge ''edge1'' ''input1'' (Some ''missing'') ''output1'' (Some ''text'')"
  let ?unset = "exampleEdge ''edge1'' ''input1'' (Some ''text'') ''output1'' None"
  let ?input1 = "exampleNode ''input1'' INPUT ''Text Input'' [] [examplePort ''text'' TEXT]"
  let ?output1 = "exampleNode ''output1'' OUTPUT ''Text Output'' [examplePort ''text'' TEXT] []"
  have 1: "?ghost \<in> set (edges danglingNodePipeline)"
    by (simp add: danglingNodePipeline_def examplePipeline_def)
  have 2: "''ghost'' \<notin> node_id ` set (nodes danglingNodePipeline)"
    by (simp add: danglingNodePipeline_def example_defs)
  have 3: "source ?ghost = ''ghost''" "target ?ghost = ''output1''"
    by (simp_all add: exampleEdge_def)
  have 4: "?missing \<in> set (edges danglingPortPipeline)" "edges danglingPortPipeline = [] @ ?missing # []"
    by (simp_all add: danglingPortPipeline_def examplePipeline_def)
  have 5: "find (\<lambda>n. node_id n = source ?missing) (nodes danglingPortPipeline) = Some ?input1"
    "find (\<lambda>n. node_id n = target ?missing) (nodes danglingPortPipeline) = Some ?output1"
    by (simp_all add: danglingPortPipeline_def example_defs)
  have 6: "sourceHandle ?missing \<notin> Some ` port_id ` set (outputs (data ?input1))"
    by (simp add: example_defs)
  have 7: "?unset \<in> set (edges danglingTargetPortPipeline)"
    "edges danglingTargetPortPipeline = [] @ ?unset # []"
    by (simp_all add: danglingTargetPortPipeline_def examplePipeline_def)
  have 8: "find (\<lambda>n. node_id n = source ?unset) (nodes danglingTargetPortPipeline) = Some ?input1"
    "find (\<lambda>n. node_id n = target ?unset) (nodes danglingTargetPortPipeline) = Some ?output1"
    by (simp_all add: danglingTargetPortPipeline_def example_defs)
  have 9: "targetHandle ?unset \<notin> Some ` port_id ` set (inputs (data ?output1))"
    by (simp add: example_defs)
  note a = validatePipeline_invalid_connection [OF 1, THEN conjunct1, THEN mp]
  note b = validatePipeline_invalid_connection [OF 4(1), THEN conjunct2,
      THEN spec [of _ ?input1], THEN spec [of _ ?output1], THEN mp]
  note c = validatePipeline_invalid_connection [OF 7(1), THEN conjunct2,
      THEN spec [of _ ?input1], THEN spec [of _ ?output1], THEN mp]
  have "''Invalid connection: ghost -> output1'' \<in> set (validatePipeline danglingNodePipeline)"
    using a 2 3 by (simp add: invalidConnectionError_def)
  moreover have b': "validateConnection danglingPortPipeline ?missing = []
       \<and> (\<forall>es1 es2. edges danglingPortPipeline = es1 @ ?missing # es2
             \<longrightarrow> validatePipeline danglingPortPipeline
               = validatePipeline (danglingPortPipeline\<lparr>edges := es1 @ es2\<rparr>))"
    using 5 6 by (intro b) simp
  moreover have "validatePipeline danglingPortPipeline
       = validatePipeline (danglingPortPipeline\<lparr>edges := []\<rparr>)"
    using b' [THEN conjunct2, THEN spec [of _ "[]"], THEN spec [of _ "[]"], THEN mp, OF 4(2)]
    by simp
  moreover have c': "validateConnection danglingTargetPortPipeline ?unset = []
       \<and> (\<forall>es1 es2. edges danglingTargetPortPipeline = es1 @ ?unset # es2
             \<longrightarrow> validatePipeline danglingTargetPortPipeline
               = validatePipeline (danglingTargetPortPipeline\<lparr>edges := es1 @ es2\<rparr>))"
    using 8 9 by (intro c) simp
  moreover have "validatePipeline danglingTargetPortPipeline
       = validatePipeline (danglingTargetPortPipeline\<lparr>edges := []\<rparr>)"
    using c' [THEN conjunct2, THEN spec [of _ "[]"], THEN spec [of _ "[]"], THEN mp, OF 7(2)]
    by simp
  moreover have "Some ''missing'' \<notin> Some ` port_id ` set [examplePort ''text'' TEXT]"
    by (simp add: example_defs)
  ultimately show ?thesis
    using 2 5 by (simp add: exampleEdge_def)
qed

theorem validatePipeline_dangling_port_counterexample:
  "exampleEdge ''edge1'' ''input1'' (Some ''missing'') ''output1'' (Some ''text'')
     \<in> set (edges danglingPortPipeline)
   \<and> find (\<lambda>n. node_id n = ''input1'') (nodes danglingPortPipeline)
       = Some (exampleNode ''input1'' INPUT ''Text Input'' [] [examplePort ''text'' TEXT])
   \<and> ''missing'' \<notin> port_id ` set (outputs (data (exampleNode ''input1'' INPUT ''Text Input'' [] [examplePort ''text'' TEXT])))
   \<and> validatePipeline danglingPortPipeline = []"
  by (simp add: validatePipeline_def validateConnection_def danglingPortPipeline_def example_defs)

section \<open>Properties of the scheduler\<close>

lemma precedes_iff_nth:
  "precedes xs a b \<longleftrightarrow> (\<exists>i j. i < j \<and> j < length xs \<and> xs ! i = a \<and> xs ! j = b)"
proof (induction xs)
  case Nil
  show ?case by simp
next
  case (Cons x xs)
  show ?case
  proof
    assume "precedes (x # xs) a b"
    then consider "x = a" "b \<in> set xs" | "precedes xs a b" by auto
    then show "\<exists>i j. i < j \<and> j < length (x # xs) \<and> (x # xs) ! i = a \<and> (x # xs) ! j = b"
    proof cases
      case 1
      then obtain k where "k < length xs" "xs ! k = b" by (auto simp: in_set_conv_nth)
      with 1 have "0 < Suc k \<and> Suc k < length (x # xs) \<and> (x # xs) ! 0 = a \<and> (x # xs) ! Suc k = b"
        by simp
      then show ?thesis by blast
    next
      case 2
      with Cons.IH obtain i j where "i < j" "j < length xs" "xs ! i = a" "xs ! j = b" by auto
      then have "Suc i < Suc j \<and> Suc j < length (x # xs) \<and> (x # xs) ! Suc i = a \<and> (x # xs) ! Suc j = b"
        by simp
      then show ?thesis by blast
    qed
  next
    assume "\<exists>i j. i < j \<and> j < length (x # xs) \<and> (x # xs) ! i = a \<and> (x # xs) ! j = b"
    then obtain i j where ij: "i < j" "j < length (x # xs)" "(x # xs) ! i = a" "(x # xs) ! j = b"
      by auto
    then obtain j' where j': "j = Suc j'" by (cases j) auto
    show "precedes (x # xs) a b"
    proof (cases i)
      case 0
      with ij j' show ?thesis by auto
    next
      case (Suc i')
      with ij j' have "i' < j' \<and> j' < length xs \<and> xs ! i' = a \<and> xs ! j' = b" by simp
      with Cons.IH have "precedes xs a b" by blast
      then show ?thesis by simp
    qed
  qed
qed

lemma precedes_append:
  "a \<in> set xs \<Longrightarrow> b \<in> set ys \<Longrightarrow> precedes (xs @ ys) a b"
  by (induction xs) auto

lemma precedes_append_left:
  "precedes xs a b \<Longrightarrow> precedes (xs @ ys) a b"
  by (induction xs) auto

lemma precedes_distinct_irrefl:
  "distinct xs \<Longrightarrow> \<not> precedes xs a a"
  by (induction xs) auto

lemma precedes_in_set:
  "precedes xs a b \<Longrightarrow> a \<in> set xs \<and> b \<in> set xs"
  by (induction xs) auto

lemma precedes_trans:
  "distinct xs \<Longrightarrow> precedes xs a b \<Longrightarrow> precedes xs b c \<Longrightarrow> precedes xs a c"
proof (induction xs)
  case Nil
  then show ?case by simp
next
  case (Cons x xs)
  then show ?case
    using precedes_in_set [of xs b c] precedes_in_set [of xs a b] by auto
qed

lemma extends_refl: "extends es roots s s"
  by (auto simp: extends_def)

lemma extends_trans:
  assumes "extends es A s s1" "extends es B s1 s2" "A \<subseteq> C" "B \<subseteq> C"
  shows "extends es C s s2"
proof -
  from assms(1) obtain n1 where 1: "visiting s1 = visiting s" "result s1 = result s @ n1"
    "visited s1 = visited s \<union> set n1" "\<forall>x\<in>set n1. \<exists>r\<in>A. (x, r) \<in> (edge_rel es)\<^sup>*"
    by (auto simp: extends_def)
  from assms(2) obtain n2 where 2: "visiting s2 = visiting s1" "result s2 = result s1 @ n2"
    "visited s2 = visited s1 \<union> set n2" "\<forall>x\<in>set n2. \<exists>r\<in>B. (x, r) \<in> (edge_rel es)\<^sup>*"
    by (auto simp: extends_def)
  have "result s2 = result s @ (n1 @ n2)" using 1 2 by simp
  moreover have "visited s2 = visited s \<union> set (n1 @ n2)" using 1 2 by auto
  moreover have "\<forall>x\<in>set (n1 @ n2). \<exists>r\<in>C. (x, r) \<in> (edge_rel es)\<^sup>*"
    using 1(4) 2(4) assms(3,4) by auto blast+
  moreover have "visiting s2 = visiting s" using 1 2 by simp
  ultimately show ?thesis unfolding extends_def by blast
qed

lemma dependencies_edge:
  "d \<in> set (dependencies es nodeId) \<longleftrightarrow> (d, nodeId) \<in> edge_rel es"
  by (auto simp: dependencies_def edge_rel_def)

lemma visit_extends:
  "visit es nodeId s = Some s' \<Longrightarrow> extends es {nodeId} s s' \<and> nodeId \<in> visited s'"
  "visit_deps es deps s = Some s' \<Longrightarrow> extends es (set deps) s s' \<and> set deps \<subseteq> visited s'"
proof (induction es nodeId s and es deps s arbitrary: s' and s' rule: visit_visit_deps.induct)
  case (1 es nodeId s)
  show ?case
  proof (cases "nodeId \<in> visiting s")
    case True
    with "1.prems" show ?thesis by (simp add: visit.simps)
  next
    case nv: False
    show ?thesis
    proof (cases "nodeId \<in> visited s")
      case True
      with nv "1.prems" show ?thesis by (simp add: visit.simps extends_refl)
    next
      case False
      with nv "1.prems" obtain s1 where
        s1: "visit_deps es (dependencies es nodeId) (s\<lparr>visiting := insert nodeId (visiting s)\<rparr>) = Some s1"
        and s': "s' = s1\<lparr>visiting := visiting s1 - {nodeId}, visited := insert nodeId (visited s1),
                       result := result s1 @ [nodeId]\<rparr>"
        by (simp add: visit.simps split: option.splits)
      from "1.IH" [OF nv False s1] obtain new where
        n: "visiting s1 = insert nodeId (visiting s)" "result s1 = result s @ new"
          "visited s1 = visited s \<union> set new"
          "\<forall>x\<in>set new. \<exists>r\<in>set (dependencies es nodeId). (x, r) \<in> (edge_rel es)\<^sup>*"
        by (auto simp: extends_def)
      have "\<forall>x\<in>set (new @ [nodeId]). (x, nodeId) \<in> (edge_rel es)\<^sup>*"
      proof
        fix x assume "x \<in> set (new @ [nodeId])"
        then consider "x = nodeId" | "x \<in> set new" by auto
        then show "(x, nodeId) \<in> (edge_rel es)\<^sup>*"
        proof cases
          case 1
          then show ?thesis by simp
        next
          case 2
          with n(4) obtain r where "r \<in> set (dependencies es nodeId)" "(x, r) \<in> (edge_rel es)\<^sup>*"
            by auto
          then show ?thesis by (auto simp: dependencies_edge)
        qed
      qed
      moreover have "result s' = result s @ (new @ [nodeId])" using s' n by simp
      moreover have "visited s' = visited s \<union> set (new @ [nodeId])" using s' n by auto
      moreover have "visiting s' = visiting s" using s' n nv by auto
      ultimately have "extends es {nodeId} s s'"
        unfolding extends_def by blast
      moreover have "nodeId \<in> visited s'" using s' by simp
      ultimately show ?thesis by simp
    qed
  qed
next
  case (2 es s)
  then show ?case by (simp add: extends_refl)
next
  case (3 es depId rest s)
  from "3.prems" obtain s1 where
    s1: "visit es depId s = Some s1" and r: "visit_deps es rest s1 = Some s'"
    by (simp split: option.splits)
  from "3.IH"(1) [OF s1] have a: "extends es {depId} s s1" "depId \<in> visited s1" by auto
  from "3.IH"(2) [OF s1 r] have b: "extends es (set rest) s1 s'" "set rest \<subseteq> visited s'" by auto
  have "extends es (set (depId # rest)) s s'"
    by (rule extends_trans [OF a(1) b(1)]) auto
  moreover from b(1) a(2) have "depId \<in> visited s'" by (auto simp: extends_def)
  ultimately show ?case using b(2) by simp
qed

lemma visit_sort_inv:
  "visit es nodeId s = Some s' \<Longrightarrow> sort_inv es s \<Longrightarrow> sort_inv es s'"
  "visit_deps es deps s = Some s' \<Longrightarrow> sort_inv es s \<Longrightarrow> sort_inv es s'"
proof (induction es nodeId s and es deps s arbitrary: s' and s' rule: visit_visit_deps.induct)
  case (1 es nodeId s)
  show ?case
  proof (cases "nodeId \<in> visiting s")
    case True
    with "1.prems" show ?thesis by (simp add: visit.simps)
  next
    case nv: False
    show ?thesis
    proof (cases "nodeId \<in> visited s")
      case True
      with nv "1.prems" show ?thesis by (simp add: visit.simps)
    next
      case False
      let ?s0 = "s\<lparr>visiting := insert nodeId (visiting s)\<rparr>"
      from False nv "1.prems" obtain s1 where
        s1: "visit_deps es (dependencies es nodeId) ?s0 = Some s1"
        and s': "s' = s1\<lparr>visiting := visiting s1 - {nodeId}, visited := insert nodeId (visited s1),
                       result := result s1 @ [nodeId]\<rparr>"
        by (simp add: visit.simps split: option.splits)
      have "sort_inv es ?s0"
        using "1.prems"(2) False by (auto simp: sort_inv_def)
      from "1.IH" [OF nv False s1 this] have i1: "sort_inv es s1" .
      from visit_extends(2) [OF s1] have v1: "visiting s1 = insert nodeId (visiting s)"
        and d1: "set (dependencies es nodeId) \<subseteq> visited s1"
        by (auto simp: extends_def)
      from i1 v1 have nn: "nodeId \<notin> visited s1" by (auto simp: sort_inv_def)
      have "\<forall>edge\<in>set es. target edge \<in> visited s' \<longrightarrow> precedes (result s') (source edge) (target edge)"
      proof (intro ballI impI)
        fix edge assume e: "edge \<in> set es" and t: "target edge \<in> visited s'"
        show "precedes (result s') (source edge) (target edge)"
        proof (cases "target edge = nodeId")
          case True
          with e have "source edge \<in> set (dependencies es nodeId)"
            by (auto simp: dependencies_def)
          with d1 i1 have "source edge \<in> set (result s1)" by (auto simp: sort_inv_def)
          then show ?thesis using True s' by (simp add: precedes_append)
        next
          case False
          with t s' have "target edge \<in> visited s1" by simp
          with i1 e have "precedes (result s1) (source edge) (target edge)"
            by (auto simp: sort_inv_def)
          then show ?thesis using s' by (simp add: precedes_append_left)
        qed
      qed
      moreover have "set (result s') = visited s'" using s' i1 by (auto simp: sort_inv_def)
      moreover have "distinct (result s')" using s' i1 nn by (auto simp: sort_inv_def)
      moreover have "visited s' \<inter> visiting s' = {}" using s' i1 by (auto simp: sort_inv_def)
      ultimately show ?thesis unfolding sort_inv_def by blast
    qed
  qed
next
  case (2 es s)
  then show ?case by simp
next
  case (3 es depId rest s)
  from "3.prems" obtain s1 where
    s1: "visit es depId s = Some s1" and r: "visit_deps es rest s1 = Some s'"
    by (simp split: option.splits)
  from "3.IH"(1) [OF s1 "3.prems"(2)] have "sort_inv es s1" .
  from "3.IH"(2) [OF s1 r this] show ?case .
qed

lemma visit_succeeds:
  "acyclic (edge_rel es) \<Longrightarrow> \<forall>v\<in>visiting s. (nodeId, v) \<in> (edge_rel es)\<^sup>+ \<Longrightarrow> visit es nodeId s \<noteq> None"
  "acyclic (edge_rel es) \<Longrightarrow> \<forall>d\<in>set deps. \<forall>v\<in>visiting s. (d, v) \<in> (edge_rel es)\<^sup>+ \<Longrightarrow> visit_deps es deps s \<noteq> None"
proof (induction es nodeId s and es deps s rule: visit_visit_deps.induct)
  case (1 es nodeId s)
  have nv: "nodeId \<notin> visiting s"
    using "1.prems" by (auto simp: acyclic_def)
  show ?case
  proof (cases "nodeId \<in> visited s")
    case True
    with nv show ?thesis by (simp add: visit.simps)
  next
    case False
    have "\<forall>d\<in>set (dependencies es nodeId). \<forall>v\<in>visiting (s\<lparr>visiting := insert nodeId (visiting s)\<rparr>).
            (d, v) \<in> (edge_rel es)\<^sup>+"
    proof (intro ballI)
      fix d v assume d: "d \<in> set (dependencies es nodeId)"
        and v: "v \<in> visiting (s\<lparr>visiting := insert nodeId (visiting s)\<rparr>)"
      from d have dn: "(d, nodeId) \<in> edge_rel es" by (simp add: dependencies_edge)
      from v consider "v = nodeId" | "v \<in> visiting s" by auto
      then show "(d, v) \<in> (edge_rel es)\<^sup>+"
      proof cases
        case 1
        with dn show ?thesis by auto
      next
        case 2
        with "1.prems"(2) have "(nodeId, v) \<in> (edge_rel es)\<^sup>+" by simp
        with dn show ?thesis by auto
      qed
    qed
    from "1.IH" [OF nv False "1.prems"(1) this] nv False
    show ?thesis by (auto simp: visit.simps)
  qed
next
  case (2 es s)
  show ?case by simp
next
  case (3 es depId rest s)
  from "3.IH"(1) [OF "3.prems"(1)] "3.prems"(2) obtain s1 where s1: "visit es depId s = Some s1"
    by auto
  from visit_extends(1) [OF s1] have "visiting s1 = visiting s" by (simp add: extends_def)
  with "3.prems"(2) have "\<forall>d\<in>set rest. \<forall>v\<in>visiting s1. (d, v) \<in> (edge_rel es)\<^sup>+" by simp
  from "3.IH"(2) [OF s1 "3.prems"(1) this] s1 show ?case by simp
qed

lemma visitNodes_visit_deps:
  "visitNodes es ns s = visit_deps es (map node_id ns) s"
  by (induction ns arbitrary: s) (simp_all split: option.splits)

lemma visit_deps_append:
  "visit_deps es (xs @ ys) s =
     (case visit_deps es xs s of None \<Rightarrow> None | Some s1 \<Rightarrow> visit_deps es ys s1)"
  by (induction xs arbitrary: s) (simp_all split: option.splits)

lemma sort_inv_initial: "sort_inv es \<lparr>visited = {}, visiting = {}, result = []\<rparr>"
  by (simp add: sort_inv_def)

lemma topologicalSort_Some:
  assumes "topologicalSort p = Some order"
  shows "\<exists>s'. visit_deps (edges p) (map node_id (nodes p)) \<lparr>visited = {}, visiting = {}, result = []\<rparr> = Some s'
          \<and> result s' = order"
  using assms by (auto simp: topologicalSort_def visitNodes_visit_deps split: option.splits)

lemma topologicalSort_ordered:
  assumes "topologicalSort p = Some order"
  shows "distinct order" "node_id ` set (nodes p) \<subseteq> set order"
    "\<forall>x\<in>set order. \<exists>r\<in>node_id ` set (nodes p). (x, r) \<in> (edge_rel (edges p))\<^sup>*"
    "\<forall>edge\<in>set (edges p). target edge \<in> set order \<longrightarrow> precedes order (source edge) (target edge)"
proof -
  let ?s0 = "\<lparr>visited = {}, visiting = {}, result = []\<rparr>"
  from topologicalSort_Some [OF assms] obtain s' where
    s': "visit_deps (edges p) (map node_id (nodes p)) ?s0 = Some s'" and r: "result s' = order"
    by auto
  from visit_sort_inv(2) [OF s' sort_inv_initial] have inv: "sort_inv (edges p) s'" .
  from visit_extends(2) [OF s'] have ext: "extends (edges p) (set (map node_id (nodes p))) ?s0 s'"
    and sub: "set (map node_id (nodes p)) \<subseteq> visited s'" by auto
  from inv r show "distinct order" by (simp add: sort_inv_def)
  from inv r sub show "node_id ` set (nodes p) \<subseteq> set order" by (auto simp: sort_inv_def)
  from ext r show "\<forall>x\<in>set order. \<exists>r\<in>node_id ` set (nodes p). (x, r) \<in> (edge_rel (edges p))\<^sup>*"
    by (auto simp: extends_def)
  from inv r show "\<forall>edge\<in>set (edges p). target edge \<in> set order \<longrightarrow> precedes order (source edge) (target edge)"
    by (auto simp: sort_inv_def)
qed

lemma reaches_declared:
  assumes "(x, r) \<in> (edge_rel es)\<^sup>*" "r \<in> A" "\<forall>edge\<in>set es. source edge \<in> A"
  shows "x \<in> A"
  using assms(1,2)
proof (induction rule: converse_rtrancl_induct)
  case base
  then show ?case .
next
  case (step y z)
  from step.hyps(1) assms(3) show ?case by (auto simp: edge_rel_def)
qed

lemma topologicalSort_declared:
  assumes "topologicalSort p = Some order"
    and "\<forall>edge\<in>set (edges p). source edge \<in> node_id ` set (nodes p)"
  shows "set order \<subseteq> node_id ` set (nodes p)"
proof
  fix x assume "x \<in> set order"
  with topologicalSort_ordered(3) [OF assms(1)]
  obtain r where "r \<in> node_id ` set (nodes p)" "(x, r) \<in> (edge_rel (edges p))\<^sup>*"
    by blast
  then show "x \<in> node_id ` set (nodes p)"
    using assms(2) by (intro reaches_declared [of x r "edges p"]) auto
qed

lemma precedes_trancl:
  assumes "distinct order" "\<forall>(a, b)\<in>r. precedes order a b" "(x, y) \<in> r\<^sup>+"
  shows "precedes order x y"
  using assms(3)
proof (induction rule: trancl_induct)
  case (base y)
  with assms(2) show ?case by auto
next
  case (step y z)
  from step.hyps(2) assms(2) have "precedes order y z" by auto
  with step.IH assms(1) show ?case by (blast intro: precedes_trans)
qed

lemma topologicalSort_cyclic_None:
  assumes "\<not> acyclic (edge_rel (edges p))"
    and "\<forall>edge\<in>set (edges p). source edge \<in> node_id ` set (nodes p) \<and> target edge \<in> node_id ` set (nodes p)"
  shows "topologicalSort p = None"
proof (rule ccontr)
  assume "topologicalSort p \<noteq> None"
  then obtain order where o: "topologicalSort p = Some order" by auto
  note t = topologicalSort_ordered [OF o]
  have "\<forall>(a, b)\<in>edge_rel (edges p). precedes order a b"
    using t(4) t(2) assms(2) unfolding edge_rel_def by blast
  then have "\<And>x. (x, x) \<in> (edge_rel (edges p))\<^sup>+ \<Longrightarrow> False"
    using precedes_trancl [OF t(1)] precedes_distinct_irrefl [OF t(1)] by blast
  then have "acyclic (edge_rel (edges p))" by (auto simp: acyclic_def)
  with assms(1) show False by simp
qed

lemma acyclic_empty: "acyclic {}"
  by (simp add: acyclic_def)

lemmas graph_simps = edge_rel_def acyclic_insert rtrancl_insert acyclic_empty

lemmas sort_simps = topologicalSort_def visit.simps dependencies_def

text \<open>
  C1. When the graph of the edges is acyclic and every edge runs between declared node
  ids, \<open>topologicalSort\<close> returns a list: it has no duplicates, its ids are exactly the
  ids of the declared nodes, so it is a permutation of the node ids of a pipeline whose
  ids are unique, and the source of every edge stands at an earlier position than its
  target.
\<close>

theorem topologicalSort_acyclic:
  assumes "acyclic (edge_rel (edges p))"
    and "\<forall>edge\<in>set (edges p). source edge \<in> node_id ` set (nodes p) \<and> target edge \<in> node_id ` set (nodes p)"
  shows "\<exists>order. topologicalSort p = Some order
           \<and> distinct order \<and> set order = node_id ` set (nodes p)
           \<and> (distinct (map node_id (nodes p)) \<longrightarrow> mset order = mset (map node_id (nodes p)))
           \<and> (\<forall>edge\<in>set (edges p). \<exists>i j. i < j \<and> j < length order
                  \<and> order ! i = source edge \<and> order ! j = target edge)"
proof -
  let ?s0 = "\<lparr>visited = {}, visiting = {}, result = []\<rparr>"
  have "visit_deps (edges p) (map node_id (nodes p)) ?s0 \<noteq> None"
    by (rule visit_succeeds(2) [OF assms(1)]) simp
  then obtain order where o: "topologicalSort p = Some order"
    by (auto simp: topologicalSort_def visitNodes_visit_deps)
  note t = topologicalSort_ordered [OF o]
  have "set order \<subseteq> node_id ` set (nodes p)"
  proof
    fix x assume "x \<in> set order"
    with t(3) obtain r where "r \<in> node_id ` set (nodes p)" "(x, r) \<in> (edge_rel (edges p))\<^sup>*"
      by blast
    then show "x \<in> node_id ` set (nodes p)"
      using assms(2) by (intro reaches_declared [of x r "edges p"]) auto
  qed
  with t(2) have s: "set order = node_id ` set (nodes p)" by auto
  have m: "distinct (map node_id (nodes p)) \<longrightarrow> mset order = mset (map node_id (nodes p))"
  proof
    assume d: "distinct (map node_id (nodes p))"
    have "set order = set (map node_id (nodes p))" using s by simp
    with set_eq_iff_mset_eq_distinct [OF t(1) d]
    show "mset order = mset (map node_id (nodes p))" by blast
  qed
  have "\<forall>edge\<in>set (edges p). \<exists>i j. i < j \<and> j < length order
                  \<and> order ! i = source edge \<and> order ! j = target edge"
    using t(4) s assms(2) by (auto simp: precedes_iff_nth)
  with o t(1) s m show ?thesis by blast
qed

theorem topologicalSort_acyclic_witness:
  "acyclic (edge_rel (edges chainPipeline))
   \<and> topologicalSort chainPipeline = Some [''input1'', ''chunker1'', ''output1'']
   \<and> map node_id (nodes chainPipeline) = [''output1'', ''chunker1'', ''input1'']
   \<and> mset [''input1'', ''chunker1'', ''output1''] = mset (map node_id (nodes chainPipeline))"
proof -
  have 1: "acyclic (edge_rel (edges chainPipeline))"
    by (simp add: chainPipeline_def example_defs graph_simps)
  have 2: "\<forall>edge\<in>set (edges chainPipeline).
      source edge \<in> node_id ` set (nodes chainPipeline) \<and> target edge \<in> node_id ` set (nodes chainPipeline)"
    by (simp add: chainPipeline_def example_defs)
  have 3: "distinct (map node_id (nodes chainPipeline))"
    by (simp add: chainPipeline_def example_defs)
  have 4: "topologicalSort chainPipeline = Some [''input1'', ''chunker1'', ''output1'']"
    by (simp add: chainPipeline_def example_defs sort_simps)
  have 5: "map node_id (nodes chainPipeline) = [''output1'', ''chunker1'', ''input1'']"
    by (simp add: chainPipeline_def example_defs)
  from topologicalSort_acyclic [OF 1 2] 3 4
  have "mset [''input1'', ''chunker1'', ''output1''] = mset (map node_id (nodes chainPipeline))"
    by auto
  with 1 4 5 show ?thesis by simp
qed

text \<open>
  C7, as the code has it. Let \<open>topologicalSort\<close> return a list, let \<open>u\<close> be declared
  before \<open>v\<close>, and let no path of edges lead from \<open>v\<close> to \<open>u\<close> or to a node declared
  before \<open>u\<close>: then \<open>u\<close> stands before \<open>v\<close> in the list. When such a path leads to a
  node declared before \<open>u\<close>, the traversal reaches \<open>v\<close> as a dependency first, and \<open>v\<close>
  stands before \<open>u\<close> although no path joins the two: the counterexample.
\<close>

theorem topologicalSort_declaration_order:
  assumes "topologicalSort p = Some order"
    and "map node_id (nodes p) = before @ u # after"
    and "v \<in> set after"
    and "\<forall>w\<in>set (before @ [u]). (v, w) \<notin> (edge_rel (edges p))\<^sup>*"
  shows "\<exists>i j. i < j \<and> j < length order \<and> order ! i = u \<and> order ! j = v"
proof -
  let ?s0 = "\<lparr>visited = {}, visiting = {}, result = []\<rparr>"
  from topologicalSort_Some [OF assms(1)] obtain s' where
    s': "visit_deps (edges p) (map node_id (nodes p)) ?s0 = Some s'" and r: "result s' = order"
    by auto
  have "map node_id (nodes p) = (before @ [u]) @ after" using assms(2) by simp
  with s' obtain s1 where
    s1: "visit_deps (edges p) (before @ [u]) ?s0 = Some s1"
    and s2: "visit_deps (edges p) after s1 = Some s'"
    by (auto simp only: visit_deps_append split: option.splits)
  from visit_extends(2) [OF s1] obtain new1 where
    n1: "result s1 = new1" "visited s1 = set new1" "u \<in> visited s1"
      "\<forall>x\<in>set new1. \<exists>r\<in>set (before @ [u]). (x, r) \<in> (edge_rel (edges p))\<^sup>*"
    by (auto simp: extends_def)
  from visit_extends(2) [OF s2] obtain new2 where
    n2: "result s' = result s1 @ new2" "visited s' = visited s1 \<union> set new2" "set after \<subseteq> visited s'"
    by (auto simp: extends_def)
  from n1(4) assms(4) have "v \<notin> set new1" by blast
  with n1 n2 assms(3) have "v \<in> set new2" by auto
  moreover from n1 have "u \<in> set (result s1)" by simp
  ultimately have "precedes order u v" using n2(1) r by (auto intro: precedes_append)
  then show ?thesis by (simp add: precedes_iff_nth)
qed

theorem topologicalSort_declaration_order_witness:
  "topologicalSort tieBreakPipeline = Some [''c'', ''a'', ''b'']
   \<and> map node_id (nodes tieBreakPipeline) = [] @ ''a'' # [''b'', ''c'']
   \<and> (''b'', ''a'') \<notin> (edge_rel (edges tieBreakPipeline))\<^sup>*
   \<and> (\<exists>i j. i < j \<and> j < length [''c'', ''a'', ''b''] \<and> [''c'', ''a'', ''b''] ! i = ''a''
          \<and> [''c'', ''a'', ''b''] ! j = ''b'')"
proof -
  have 1: "topologicalSort tieBreakPipeline = Some [''c'', ''a'', ''b'']"
    by (simp add: tieBreakPipeline_def example_defs sort_simps)
  have 2: "map node_id (nodes tieBreakPipeline) = [] @ ''a'' # [''b'', ''c'']"
    by (simp add: tieBreakPipeline_def example_defs)
  have 3: "''b'' \<in> set [''b'', ''c'']"
    by simp
  have 4: "(''b'', ''a'') \<notin> (edge_rel (edges tieBreakPipeline))\<^sup>*"
    by (simp add: tieBreakPipeline_def example_defs graph_simps)
  then have 5: "\<forall>w\<in>set ([] @ [''a'']). (''b'', w) \<notin> (edge_rel (edges tieBreakPipeline))\<^sup>*"
    by simp
  from topologicalSort_declaration_order [OF 1 2 3 5] 1 2 4 show ?thesis
    by simp
qed

theorem topologicalSort_tie_break_counterexample:
  "map node_id (nodes tieBreakPipeline) = [''a'', ''b'', ''c'']
   \<and> (''b'', ''c'') \<notin> (edge_rel (edges tieBreakPipeline))\<^sup>*
   \<and> (''c'', ''b'') \<notin> (edge_rel (edges tieBreakPipeline))\<^sup>*
   \<and> topologicalSort tieBreakPipeline = Some [''c'', ''a'', ''b'']"
  by (simp add: tieBreakPipeline_def example_defs sort_simps graph_simps)

section \<open>Properties of the emitter and of compilation\<close>

lemma find_SomeD:
  "find P xs = Some x \<Longrightarrow> x \<in> set xs \<and> P x"
  by (induction xs) (auto split: if_splits)

lemma mapResult_Inr:
  "(\<And>x. x \<in> set xs \<Longrightarrow> \<exists>y. f x = Inr y) \<Longrightarrow> \<exists>ys. mapResult f xs = Inr ys"
proof (induction xs)
  case Nil
  show ?case by simp
next
  case (Cons x xs)
  from Cons.prems obtain y where y: "f x = Inr y" by auto
  from Cons.IH Cons.prems obtain ys where "mapResult f xs = Inr ys" by auto
  with y show ?case by simp
qed

lemma find_declared:
  "nodeId \<in> node_id ` set (nodes p) \<Longrightarrow> \<exists>node. find (\<lambda>n. node_id n = nodeId) (nodes p) = Some node"
  by (cases "find (\<lambda>n. node_id n = nodeId) (nodes p)") (auto simp: find_None_iff)

lemma generateClassBody_declared:
  assumes "set order \<subseteq> node_id ` set (nodes p)"
  shows "\<exists>body. generateClassBody p order = Inr body"
proof -
  have "\<exists>ys. mapResult
             (\<lambda>nodeId. case find (\<lambda>n. node_id n = nodeId) (nodes p) of
                         None \<Rightarrow> Inl (JsError (''Cannot read properties of undefined (reading '' @ [CHR 0x27] @ ''id'' @ [CHR 0x27] @ '')''))
                       | Some node \<Rightarrow> Inr (generateNodeMethod p node)) order = Inr ys"
  proof (rule mapResult_Inr)
    fix x assume "x \<in> set order"
    with assms have "x \<in> node_id ` set (nodes p)" by auto
    from find_declared [OF this] obtain node where "find (\<lambda>n. node_id n = x) (nodes p) = Some node" ..
    then show "\<exists>y. (case find (\<lambda>n. node_id n = x) (nodes p) of
                         None \<Rightarrow> Inl (JsError (''Cannot read properties of undefined (reading '' @ [CHR 0x27] @ ''id'' @ [CHR 0x27] @ '')''))
                       | Some node \<Rightarrow> Inr (generateNodeMethod p node)) = Inr y"
      by simp
  qed
  then show ?thesis by (auto simp: generateClassBody_def)
qed

lemma generateExecutionSequence_declared:
  assumes "set order \<subseteq> node_id ` set (nodes p)"
  shows "\<exists>calls. generateExecutionSequence p order = Inr calls"
proof -
  have "\<exists>ys. mapResult
             (\<lambda>nodeId. case find (\<lambda>n. node_id n = nodeId) (nodes p) of
                         None \<Rightarrow> Inl (JsError (''Cannot read properties of undefined (reading '' @ [CHR 0x27] @ ''data'' @ [CHR 0x27] @ '')''))
                       | Some node \<Rightarrow>
                           Inr (join newline
                                  [''            // Execute: '' @ label (data node),
                                   ''            executeNode_'' @ replaceNonAlphaNumeric nodeId @ ''()''])) order = Inr ys"
  proof (rule mapResult_Inr)
    fix x assume "x \<in> set order"
    with assms have "x \<in> node_id ` set (nodes p)" by auto
    from find_declared [OF this] obtain node where "find (\<lambda>n. node_id n = x) (nodes p) = Some node" ..
    then show "\<exists>y. (case find (\<lambda>n. node_id n = x) (nodes p) of
                         None \<Rightarrow> Inl (JsError (''Cannot read properties of undefined (reading '' @ [CHR 0x27] @ ''data'' @ [CHR 0x27] @ '')''))
                       | Some node \<Rightarrow>
                           Inr (join newline
                                  [''            // Execute: '' @ label (data node),
                                   ''            executeNode_'' @ replaceNonAlphaNumeric x @ ''()''])) = Inr y"
      by simp
  qed
  then show ?thesis by (auto simp: generateExecutionSequence_def)
qed

lemma validatePipeline_Nil_declared:
  assumes "validatePipeline p = []" "edge \<in> set (edges p)"
  shows "source edge \<in> node_id ` set (nodes p) \<and> target edge \<in> node_id ` set (nodes p)"
proof -
  from assms have "validateConnection p edge = []"
    by (auto simp: validatePipeline_eq split: if_splits)
  then obtain s t where "find (\<lambda>n. node_id n = source edge) (nodes p) = Some s"
    "find (\<lambda>n. node_id n = target edge) (nodes p) = Some t"
    by (auto simp: validateConnection_def split: option.splits)
  then show ?thesis
    by (metis (mono_tags, lifting) find_SomeD imageI)
qed

lemma join_snoc_append:
  "join sep (xs @ [a @ t]) = join sep (xs @ [a]) @ t"
  by (induction sep xs rule: join.induct) simp_all

lemma join_append:
  "xs \<noteq> [] \<Longrightarrow> ys \<noteq> [] \<Longrightarrow> join sep (xs @ ys) = join sep xs @ sep @ join sep ys"
proof (induction sep xs rule: join.induct)
  case (1 sep)
  then show ?case by simp
next
  case (2 sep x)
  then show ?case by (cases ys) simp_all
next
  case (3 sep x y ys')
  then show ?case by simp
qed

lemma kotlinClassLines_nonempty:
  "kotlinClassLines a b c d \<noteq> []"
  by (simp add: kotlinClassLines_def)

lemma kotlinTemplate_split:
  "join newline (kotlinTemplate package importLines pipelineName nodeCount edgeCount timestamp
       nodeConfigurations classBody executionSequence outputExtraction)
   = join newline (kotlinHeaderLines package importLines pipelineName nodeCount edgeCount @ ['' * Generated at: ''])
     @ timestamp
     @ (newline @ join newline (kotlinClassLines nodeConfigurations classBody executionSequence outputExtraction))"
proof -
  let ?h = "kotlinHeaderLines package importLines pipelineName nodeCount edgeCount"
  let ?c = "kotlinClassLines nodeConfigurations classBody executionSequence outputExtraction"
  have "join newline ((?h @ ['' * Generated at: '' @ timestamp]) @ ?c)
      = join newline (?h @ ['' * Generated at: '' @ timestamp]) @ newline @ join newline ?c"
    by (rule join_append) (simp_all add: kotlinClassLines_nonempty)
  also have "join newline (?h @ ['' * Generated at: '' @ timestamp])
      = join newline (?h @ ['' * Generated at: '']) @ timestamp"
    by (rule join_snoc_append)
  finally show ?thesis
    by (simp add: kotlinTemplate_def generatedAtLine_def)
qed

lemma addRequiredImports_simps [simp]:
  "pipeline (addRequiredImports g) = pipeline g"
  "targetPackage (generator_context (addRequiredImports g)) = targetPackage (generator_context g)"
  "addRequiredImports (addRequiredImports g) = addRequiredImports g"
  by (simp_all add: addRequiredImports_def)

lemma generateKotlinCode_snd [simp]:
  "snd (generateKotlinCode g order ts) = addRequiredImports g"
  by (simp add: generateKotlinCode_def Let_def)

lemma generateKotlinCode_Inl:
  "generateClassBody (pipeline g) order = Inl e \<Longrightarrow> fst (generateKotlinCode g order ts) = Inl e"
  "generateClassBody (pipeline g) order = Inr body \<Longrightarrow> generateNodeConfigurations (pipeline g) = Inl e
     \<Longrightarrow> fst (generateKotlinCode g order ts) = Inl e"
  "generateClassBody (pipeline g) order = Inr body \<Longrightarrow> generateNodeConfigurations (pipeline g) = Inr cfg
     \<Longrightarrow> generateExecutionSequence (pipeline g) order = Inl e
     \<Longrightarrow> fst (generateKotlinCode g order ts) = Inl e"
  by (simp_all add: generateKotlinCode_def Let_def)

lemma generateKotlinCode_Inr:
  "generateClassBody (pipeline g) order = Inr body \<Longrightarrow> generateNodeConfigurations (pipeline g) = Inr cfg
     \<Longrightarrow> generateExecutionSequence (pipeline g) order = Inr calls
     \<Longrightarrow> fst (generateKotlinCode g order ts) =
          Inr (join newline
                 (kotlinTemplate (targetPackage (generator_context g))
                    (join newline (context_imports (generator_context (addRequiredImports g))))
                    (name (pipeline g)) (length (nodes (pipeline g))) (length (edges (pipeline g))) ts
                    cfg body calls (generateOutputExtraction (pipeline g))))"
  by (simp add: generateKotlinCode_def Let_def)

lemma generateKotlinCode_parts:
  "\<exists>x. \<forall>ts. fst (generateKotlinCode g order ts)
            = (case x of Inl e \<Rightarrow> Inl e | Inr (pre, suf) \<Rightarrow> Inr (pre @ ts @ suf))"
proof (cases "generateClassBody (pipeline g) order")
  case (Inl e)
  then have "\<forall>ts. fst (generateKotlinCode g order ts)
            = (case (Inl e :: js_error + string \<times> string) of Inl e \<Rightarrow> Inl e | Inr (pre, suf) \<Rightarrow> Inr (pre @ ts @ suf))"
    by (simp add: generateKotlinCode_Inl)
  then show ?thesis ..
next
  case body: (Inr body)
  show ?thesis
  proof (cases "generateNodeConfigurations (pipeline g)")
    case (Inl e)
    with body have "\<forall>ts. fst (generateKotlinCode g order ts)
            = (case (Inl e :: js_error + string \<times> string) of Inl e \<Rightarrow> Inl e | Inr (pre, suf) \<Rightarrow> Inr (pre @ ts @ suf))"
      by (simp add: generateKotlinCode_Inl)
    then show ?thesis ..
  next
    case cfg: (Inr cfg)
    show ?thesis
    proof (cases "generateExecutionSequence (pipeline g) order")
      case (Inl e)
      with body cfg have "\<forall>ts. fst (generateKotlinCode g order ts)
            = (case (Inl e :: js_error + string \<times> string) of Inl e \<Rightarrow> Inl e | Inr (pre, suf) \<Rightarrow> Inr (pre @ ts @ suf))"
        by (simp add: generateKotlinCode_Inl)
      then show ?thesis ..
    next
      case (Inr calls)
      let ?pre = "join newline
          (kotlinHeaderLines (targetPackage (generator_context g))
             (join newline (context_imports (generator_context (addRequiredImports g))))
             (name (pipeline g)) (length (nodes (pipeline g))) (length (edges (pipeline g)))
           @ ['' * Generated at: ''])"
      let ?suf = "newline @ join newline
          (kotlinClassLines cfg body calls (generateOutputExtraction (pipeline g)))"
      from body cfg Inr have "\<forall>ts. fst (generateKotlinCode g order ts)
            = (case (Inr (?pre, ?suf) :: js_error + string \<times> string) of Inl e \<Rightarrow> Inl e | Inr (pre, suf) \<Rightarrow> Inr (pre @ ts @ suf))"
        by (simp add: generateKotlinCode_Inr kotlinTemplate_split)
      then show ?thesis ..
    qed
  qed
qed

lemma generate_invalid:
  "validatePipeline (pipeline g) \<noteq> [] \<Longrightarrow>
     generate g ts = (\<lparr>success = False, kotlinCode = None, buildGradle = None,
                        errors = validatePipeline (pipeline g), warnings = []\<rparr>, g)"
  by (simp add: generate_def Let_def)

lemma generate_no_order:
  "validatePipeline (pipeline g) = [] \<Longrightarrow> topologicalSort (pipeline g) = None \<Longrightarrow>
     generate g ts = (\<lparr>success = False, kotlinCode = None, buildGradle = None,
                        errors = [circularDependencyError], warnings = []\<rparr>, g)"
  by (simp add: generate_def Let_def)

lemma generate_thrown:
  "validatePipeline (pipeline g) = [] \<Longrightarrow> topologicalSort (pipeline g) = Some order \<Longrightarrow>
     fst (generateKotlinCode g order ts) = Inl error \<Longrightarrow>
     generate g ts = (\<lparr>success = False, kotlinCode = None, buildGradle = None,
                        errors = [codeGenerationFailed error], warnings = []\<rparr>, addRequiredImports g)"
proof -
  assume a: "validatePipeline (pipeline g) = []" "topologicalSort (pipeline g) = Some order"
    "fst (generateKotlinCode g order ts) = Inl error"
  have "generateKotlinCode g order ts = (Inl error, addRequiredImports g)"
    using a(3) generateKotlinCode_snd [of g order ts] by (cases "generateKotlinCode g order ts") simp
  with a(1,2) show ?thesis by (simp add: generate_def Let_def)
qed

lemma generate_emitted:
  "validatePipeline (pipeline g) = [] \<Longrightarrow> topologicalSort (pipeline g) = Some order \<Longrightarrow>
     fst (generateKotlinCode g order ts) = Inr code \<Longrightarrow>
     generate g ts = (\<lparr>success = True, kotlinCode = Some code, buildGradle = Some generateBuildGradle,
                        errors = [], warnings = getWarnings (pipeline g)\<rparr>, addRequiredImports g)"
proof -
  assume a: "validatePipeline (pipeline g) = []" "topologicalSort (pipeline g) = Some order"
    "fst (generateKotlinCode g order ts) = Inr code"
  have "generateKotlinCode g order ts = (Inr code, addRequiredImports g)"
    using a(3) generateKotlinCode_snd [of g order ts] by (cases "generateKotlinCode g order ts") simp
  with a(1,2) show ?thesis by (simp add: generate_def Let_def)
qed

lemma generateKotlinCode_addRequiredImports:
  "fst (generateKotlinCode (addRequiredImports g) order ts) = fst (generateKotlinCode g order ts)"
  by (simp add: generateKotlinCode_def Let_def)

lemma generate_addRequiredImports:
  "fst (generate (addRequiredImports g) ts) = fst (generate g ts)"
proof (cases "validatePipeline (pipeline g) = []")
  case False
  then show ?thesis by (simp add: generate_invalid)
next
  case v: True
  show ?thesis
  proof (cases "topologicalSort (pipeline g)")
    case None
    with v show ?thesis by (simp add: generate_no_order)
  next
    case (Some order)
    show ?thesis
    proof (cases "fst (generateKotlinCode g order ts)")
      case (Inl e)
      with v Some show ?thesis
        by (simp add: generate_thrown generateKotlinCode_addRequiredImports)
    next
      case (Inr code)
      with v Some show ?thesis
        by (simp add: generate_emitted generateKotlinCode_addRequiredImports)
    qed
  qed
qed

lemma generate_snd:
  "snd (generate g ts) = g \<or> snd (generate g ts) = addRequiredImports g"
proof (cases "validatePipeline (pipeline g) = []")
  case False
  then show ?thesis by (simp add: generate_invalid)
next
  case v: True
  show ?thesis
  proof (cases "topologicalSort (pipeline g)")
    case None
    with v show ?thesis by (simp add: generate_no_order)
  next
    case (Some order)
    show ?thesis
    proof (cases "fst (generateKotlinCode g order ts)")
      case (Inl e)
      with v Some show ?thesis by (simp add: generate_thrown)
    next
      case (Inr code)
      with v Some show ?thesis by (simp add: generate_emitted)
    qed
  qed
qed

lemma generate_again:
  "fst (generate (snd (generate g ts)) ts') = fst (generate g ts')"
  using generate_snd [of g ts] by (auto simp: generate_addRequiredImports)

lemmas example_defs2 = example_defs exampleGenerator_def

lemma generate_valid:
  assumes "validatePipeline (pipeline g) = []" "topologicalSort (pipeline g) = Some order"
    "generateNodeConfigurations (pipeline g) = Inr cfg"
  shows "\<exists>code. generate g ts =
           (\<lparr>success = True, kotlinCode = Some code, buildGradle = Some generateBuildGradle,
              errors = [], warnings = getWarnings (pipeline g)\<rparr>, addRequiredImports g)"
proof -
  have "\<forall>edge\<in>set (edges (pipeline g)). source edge \<in> node_id ` set (nodes (pipeline g))"
    using validatePipeline_Nil_declared [OF assms(1)] by blast
  from topologicalSort_declared [OF assms(2) this]
  have sub: "set order \<subseteq> node_id ` set (nodes (pipeline g))" .
  from generateClassBody_declared [OF sub] obtain body where
    b: "generateClassBody (pipeline g) order = Inr body" ..
  from generateExecutionSequence_declared [OF sub] obtain calls where
    c: "generateExecutionSequence (pipeline g) order = Inr calls" ..
  from generateKotlinCode_Inr [OF b assms(3) c, of ts] generate_emitted [OF assms(1,2)]
  show ?thesis by blast
qed

lemma generate_serialization_error:
  assumes "validatePipeline (pipeline g) = []" "topologicalSort (pipeline g) = Some order"
    "generateNodeConfigurations (pipeline g) = Inl e"
  shows "fst (generateKotlinCode g order ts) = Inl e"
proof -
  have "\<forall>edge\<in>set (edges (pipeline g)). source edge \<in> node_id ` set (nodes (pipeline g))"
    using validatePipeline_Nil_declared [OF assms(1)] by blast
  from topologicalSort_declared [OF assms(2) this]
  have sub: "set order \<subseteq> node_id ` set (nodes (pipeline g))" .
  from generateClassBody_declared [OF sub] obtain body where
    b: "generateClassBody (pipeline g) order = Inr body" ..
  from generateKotlinCode_Inl(2) [OF b assms(3)] show ?thesis .
qed

lemma generate_shape:
  "(let r = fst (generate g ts)
    in if success r then errors r = [] \<and> kotlinCode r \<noteq> None \<and> buildGradle r \<noteq> None
                         \<and> warnings r = getWarnings (pipeline g)
       else errors r \<noteq> [] \<and> kotlinCode r = None \<and> buildGradle r = None \<and> warnings r = [])"
proof (cases "validatePipeline (pipeline g) = []")
  case False
  then show ?thesis by (simp add: generate_invalid)
next
  case v: True
  show ?thesis
  proof (cases "topologicalSort (pipeline g)")
    case None
    with v show ?thesis by (simp add: generate_no_order)
  next
    case (Some order)
    show ?thesis
    proof (cases "fst (generateKotlinCode g order ts)")
      case (Inl e)
      with v Some show ?thesis by (simp add: generate_thrown)
    next
      case (Inr code)
      with v Some show ?thesis by (simp add: generate_emitted)
    qed
  qed
qed

lemma foldl_warnings:
  "foldl (\<lambda>ws node. if config (data node) = [] then ws @ [f node] else ws) acc ns
     = acc @ map f (filter (\<lambda>node. config (data node) = []) ns)"
  by (induction ns arbitrary: acc) simp_all

lemma getWarnings_eq:
  "getWarnings p =
     (if 10 < length (filter (\<lambda>n. data_type (data n) = PROCESSING) (nodes p)) then [complexityWarning] else [])
     @ map (\<lambda>node. noConfigurationWarning (label (data node)))
         (filter (\<lambda>node. config (data node) = []) (nodes p))"
  by (simp add: getWarnings_def Let_def foldl_warnings)

lemma complexityWarning_neq [simp]:
  "complexityWarning \<noteq> noConfigurationWarning l"
  by (simp add: complexityWarning_def noConfigurationWarning_def)

lemma sublist_join:
  "x \<in> set xs \<Longrightarrow> sublist x (join sep xs)"
proof (induction sep xs rule: join.induct)
  case (1 sep)
  then show ?case by simp
next
  case (2 sep y)
  then show ?case by simp
next
  case (3 sep y z zs)
  show ?case
  proof (cases "x = y")
    case True
    have "sublist y ([] @ y @ (sep @ join sep (z # zs)))" by (rule sublist_appendI)
    with True show ?thesis by simp
  next
    case False
    with "3.prems" have "x \<in> set (z # zs)" by simp
    from "3.IH" [OF this] obtain ps ss where "join sep (z # zs) = ps @ x @ ss"
      by (auto simp: sublist_def)
    then have "join sep (y # z # zs) = (y @ sep @ ps) @ x @ ss" by simp
    then show ?thesis unfolding sublist_def by blast
  qed
qed

lemma sublist_transitive:
  assumes "sublist xs ys" "sublist ys zs"
  shows "sublist xs zs"
proof -
  from assms obtain a b c d where "ys = a @ xs @ b" "zs = c @ ys @ d"
    by (auto simp: sublist_def)
  then have "zs = (c @ a) @ xs @ (b @ d)" by simp
  then show ?thesis unfolding sublist_def by blast
qed

lemma mapResult_mem:
  "mapResult f xs = Inr ys \<Longrightarrow> x \<in> set xs \<Longrightarrow> \<exists>y\<in>set ys. f x = Inr y"
proof (induction xs arbitrary: ys)
  case Nil
  then show ?case by simp
next
  case (Cons a xs)
  from Cons.prems(1) obtain b bs where b: "f a = Inr b" "mapResult f xs = Inr bs" "ys = b # bs"
    by (auto split: sum.splits)
  show ?case
  proof (cases "x = a")
    case True
    with b show ?thesis by simp
  next
    case False
    with Cons.prems(2) have "x \<in> set xs" by simp
    from Cons.IH [OF b(2) this] b(3) show ?thesis by auto
  qed
qed

lemma generateClassBody_method:
  assumes "generateClassBody p order = Inr body" "nodeId \<in> set order"
    "find (\<lambda>n. node_id n = nodeId) (nodes p) = Some node"
  shows "sublist (generateNodeMethod p node) body"
proof -
  let ?f = "\<lambda>nodeId. case find (\<lambda>n. node_id n = nodeId) (nodes p) of
                         None \<Rightarrow> Inl (JsError (''Cannot read properties of undefined (reading '' @ [CHR 0x27] @ ''id'' @ [CHR 0x27] @ '')''))
                       | Some node \<Rightarrow> Inr (generateNodeMethod p node)"
  from assms(1) obtain methods where m: "mapResult ?f order = Inr methods"
    and b: "body = join (newline @ newline) methods"
    by (auto simp: generateClassBody_def split: sum.splits)
  from mapResult_mem [OF m assms(2)] assms(3) have "generateNodeMethod p node \<in> set methods"
    by auto
  with b show ?thesis by (simp add: sublist_join)
qed

lemma classBody_in_template:
  "classBody \<in> set (kotlinTemplate package importLines pipelineName nodeCount edgeCount timestamp
       nodeConfigurations classBody executionSequence outputExtraction)"
  by (simp add: kotlinTemplate_def kotlinClassLines_def)

lemma generateNodeLogic_in_method:
  "sublist (generateNodeLogic p node) (generateNodeMethod p node)"
  unfolding generateNodeMethod_def Let_def
  by (rule sublist_join) simp

lemma generate_contains_method:
  assumes "validatePipeline (pipeline g) = []" "topologicalSort (pipeline g) = Some order"
    "generateNodeConfigurations (pipeline g) = Inr cfg"
    "find (\<lambda>n. node_id n = node_id node) (nodes (pipeline g)) = Some node"
  shows "\<exists>code. fst (generate g ts) =
           \<lparr>success = True, kotlinCode = Some code, buildGradle = Some generateBuildGradle,
              errors = [], warnings = getWarnings (pipeline g)\<rparr>
          \<and> sublist (generateNodeMethod (pipeline g) node) code"
proof -
  have "\<forall>edge\<in>set (edges (pipeline g)). source edge \<in> node_id ` set (nodes (pipeline g))"
    using validatePipeline_Nil_declared [OF assms(1)] by blast
  from topologicalSort_declared [OF assms(2) this]
  have sub: "set order \<subseteq> node_id ` set (nodes (pipeline g))" .
  from generateClassBody_declared [OF sub] obtain body where
    b: "generateClassBody (pipeline g) order = Inr body" ..
  from generateExecutionSequence_declared [OF sub] obtain calls where
    c: "generateExecutionSequence (pipeline g) order = Inr calls" ..
  note k = generateKotlinCode_Inr [OF b assms(3) c, of ts]
  from find_SomeD [OF assms(4)] have "node_id node \<in> node_id ` set (nodes (pipeline g))" by blast
  with topologicalSort_ordered(2) [OF assms(2)] have "node_id node \<in> set order" by blast
  from generateClassBody_method [OF b this assms(4)]
  have 1: "sublist (generateNodeMethod (pipeline g) node) body" .
  have 2: "sublist body (join newline
                 (kotlinTemplate (targetPackage (generator_context g))
                    (join newline (context_imports (generator_context (addRequiredImports g))))
                    (name (pipeline g)) (length (nodes (pipeline g))) (length (edges (pipeline g))) ts
                    cfg body calls (generateOutputExtraction (pipeline g))))"
    by (rule sublist_join) (rule classBody_in_template)
  from 1 2 have "sublist (generateNodeMethod (pipeline g) node) (join newline
                 (kotlinTemplate (targetPackage (generator_context g))
                    (join newline (context_imports (generator_context (addRequiredImports g))))
                    (name (pipeline g)) (length (nodes (pipeline g))) (length (edges (pipeline g))) ts
                    cfg body calls (generateOutputExtraction (pipeline g))))"
    by (rule sublist_transitive)
  with generate_emitted [OF assms(1,2) k] show ?thesis by simp
qed

lemmas emit_simps = generateNodeConfigurations_def formatConfigMap_def

lemma textPipeline_facts:
  "validatePipeline textPipeline = []"
  "topologicalSort textPipeline = Some [''input1'', ''output1'']"
  "\<exists>cfg. generateNodeConfigurations textPipeline = Inr cfg"
  by (simp_all add: textPipeline_def example_defs validatePipeline_def validateConnection_def
      isDataTypeCompatible_def sort_simps emit_simps)

lemma bigIntPipeline_facts:
  "validatePipeline bigIntPipeline = []"
  "topologicalSort bigIntPipeline = Some [''input1'', ''output1'']"
  "generateNodeConfigurations bigIntPipeline = Inl (JsError ''Do not know how to serialize a BigInt'')"
  by (simp_all add: bigIntPipeline_def withConfig_def example_defs validatePipeline_def
      validateConnection_def isDataTypeCompatible_def sort_simps emit_simps)

lemma cyclePipeline_facts:
  "validatePipeline cyclePipeline = []"
  "\<not> acyclic (edge_rel (edges cyclePipeline))"
  "\<forall>edge\<in>set (edges cyclePipeline).
      source edge \<in> node_id ` set (nodes cyclePipeline) \<and> target edge \<in> node_id ` set (nodes cyclePipeline)"
  by (simp_all add: cyclePipeline_def example_defs validatePipeline_def validateConnection_def
      graph_simps)

lemma customTypePipeline_facts:
  "validatePipeline customTypePipeline = []"
  "topologicalSort customTypePipeline = Some [''input1'', ''custom1'', ''output1'']"
  "\<exists>cfg. generateNodeConfigurations customTypePipeline = Inr cfg"
  "find (\<lambda>n. node_id n = ''custom1'') (nodes customTypePipeline)
     = Some (exampleNode ''custom1'' (OtherType ''custom'') ''Custom Step'' [] [])"
  by (simp_all add: customTypePipeline_def example_defs validatePipeline_def validateConnection_def
      sort_simps emit_simps)

lemma validatePipeline_no_cycle_diagnostic:
  "circularDependencyError \<notin> set (validatePipeline p)"
proof
  assume "circularDependencyError \<in> set (validatePipeline p)"
  then consider "circularDependencyError = missingInputError"
    | "circularDependencyError = missingOutputError"
    | edge where "circularDependencyError \<in> set (validateConnection p edge)"
    by (auto simp: validatePipeline_eq split: if_splits)
  then show False
  proof cases
    case 1
    then show False by (simp add: circularDependencyError_def missingInputError_def)
  next
    case 2
    then show False by (simp add: circularDependencyError_def missingOutputError_def)
  next
    case 3
    from validateConnection_cases [OF 3] show False
      by (auto simp: circularDependencyError_def invalidConnectionError_def
          incompatibleTypesError_def)
  qed
qed

text \<open>
  C4, as the code has it. When the graph of the edges has a cycle and every edge runs
  between declared node ids, \<open>topologicalSort\<close> returns no order, and \<open>generate\<close> returns
  a failure without source text. Validation runs first: the failure carries the
  diagnostic of the circular dependencies when validation found nothing, and the
  diagnostics of validation otherwise. The counterexample: a cycle in a pipeline without
  an input node is reported as the missing nodes only, and a cycle between ids that no
  node has is never visited, so the scheduler returns the order of the declared nodes.
\<close>

theorem generate_cycle:
  assumes "\<not> acyclic (edge_rel (edges (pipeline g)))"
    and "\<forall>edge\<in>set (edges (pipeline g)).
           source edge \<in> node_id ` set (nodes (pipeline g)) \<and> target edge \<in> node_id ` set (nodes (pipeline g))"
  shows "topologicalSort (pipeline g) = None
         \<and> fst (generate g timestamp)
            = \<lparr>success = False, kotlinCode = None, buildGradle = None,
                errors = (if validatePipeline (pipeline g) = [] then [circularDependencyError]
                          else validatePipeline (pipeline g)),
                warnings = []\<rparr>"
proof -
  from topologicalSort_cyclic_None [OF assms] have n: "topologicalSort (pipeline g) = None" .
  then show ?thesis
    by (cases "validatePipeline (pipeline g) = []") (simp_all add: generate_invalid generate_no_order)
qed

theorem generate_cycle_witness:
  "\<not> acyclic (edge_rel (edges cyclePipeline))
   \<and> validatePipeline cyclePipeline = []
   \<and> topologicalSort cyclePipeline = None
   \<and> fst (generate (exampleGenerator cyclePipeline) exampleTimestamp)
       = \<lparr>success = False, kotlinCode = None, buildGradle = None,
           errors = [''Pipeline contains circular dependencies''], warnings = []\<rparr>"
proof -
  let ?g = "exampleGenerator cyclePipeline"
  have p: "pipeline ?g = cyclePipeline" by (simp add: exampleGenerator_def)
  have 1: "\<not> acyclic (edge_rel (edges (pipeline ?g)))" by (simp add: p cyclePipeline_facts)
  have 2: "\<forall>edge\<in>set (edges (pipeline ?g)).
      source edge \<in> node_id ` set (nodes (pipeline ?g)) \<and> target edge \<in> node_id ` set (nodes (pipeline ?g))"
    using cyclePipeline_facts(3) by (simp add: p)
  from generate_cycle [OF 1 2, of exampleTimestamp] cyclePipeline_facts(1,2)
  show ?thesis by (simp add: p circularDependencyError_def)
qed

theorem generate_cycle_counterexample:
  "\<not> acyclic (edge_rel (edges cycleOnlyPipeline))
   \<and> fst (generate (exampleGenerator cycleOnlyPipeline) exampleTimestamp)
       = \<lparr>success = False, kotlinCode = None, buildGradle = None,
           errors = [missingInputError, missingOutputError], warnings = []\<rparr>
   \<and> circularDependencyError \<notin> set [missingInputError, missingOutputError]
   \<and> \<not> acyclic (edge_rel (edges undeclaredCyclePipeline))
   \<and> topologicalSort undeclaredCyclePipeline = Some [''input1'', ''output1'']"
proof -
  have 1: "\<not> acyclic (edge_rel (edges cycleOnlyPipeline))"
    by (simp add: cycleOnlyPipeline_def example_defs graph_simps)
  have 2: "validatePipeline cycleOnlyPipeline = [missingInputError, missingOutputError]"
    by (simp add: cycleOnlyPipeline_def example_defs validatePipeline_def validateConnection_def)
  have 3: "fst (generate (exampleGenerator cycleOnlyPipeline) exampleTimestamp)
       = \<lparr>success = False, kotlinCode = None, buildGradle = None,
           errors = [missingInputError, missingOutputError], warnings = []\<rparr>"
    using 2 by (simp add: generate_invalid exampleGenerator_def)
  have 4: "circularDependencyError \<notin> set [missingInputError, missingOutputError]"
    by (simp add: circularDependencyError_def missingInputError_def missingOutputError_def)
  have 5: "\<not> acyclic (edge_rel (edges undeclaredCyclePipeline))"
    by (simp add: undeclaredCyclePipeline_def example_defs graph_simps)
  have 6: "topologicalSort undeclaredCyclePipeline = Some [''input1'', ''output1'']"
    by (simp add: undeclaredCyclePipeline_def example_defs sort_simps)
  from 1 3 4 5 6 show ?thesis by simp
qed

text \<open>
  C5, as the code has it. For a node whose type is none of the six registered ones,
  \<open>generateNodeLogic\<close> returns the comment line of the unknown node type, and nothing
  fails: when the pipeline passes validation, is ordered and its configurations
  serialise, \<open>generate\<close> succeeds without a diagnostic, and the source text holds the
  method of the node with that comment as its logic.
\<close>

theorem generateNodeLogic_unregistered:
  assumes "data_type (data node) = OtherType t"
    and "find (\<lambda>n. node_id n = node_id node) (nodes (pipeline g)) = Some node"
    and "validatePipeline (pipeline g) = []"
    and "topologicalSort (pipeline g) = Some order"
    and "generateNodeConfigurations (pipeline g) = Inr cfg"
  shows "generateNodeLogic (pipeline g) node = ''            // Unknown node type''
         \<and> success (fst (generate g timestamp))
         \<and> errors (fst (generate g timestamp)) = []
         \<and> (\<exists>code. kotlinCode (fst (generate g timestamp)) = Some code
               \<and> sublist (generateNodeMethod (pipeline g) node) code
               \<and> sublist ''            // Unknown node type'' (generateNodeMethod (pipeline g) node))"
proof -
  from assms(1) have l: "generateNodeLogic (pipeline g) node = ''            // Unknown node type''"
    by simp
  from generate_contains_method [OF assms(3,4,5,2), of timestamp] obtain code where
    c: "fst (generate g timestamp) =
           \<lparr>success = True, kotlinCode = Some code, buildGradle = Some generateBuildGradle,
              errors = [], warnings = getWarnings (pipeline g)\<rparr>"
      "sublist (generateNodeMethod (pipeline g) node) code"
    by blast
  from generateNodeLogic_in_method [of "pipeline g" node] l
  have "sublist ''            // Unknown node type'' (generateNodeMethod (pipeline g) node)"
    by simp
  with l c show ?thesis by simp
qed

theorem generateNodeLogic_unregistered_witness:
  "data_type (data (exampleNode ''custom1'' (OtherType ''custom'') ''Custom Step'' [] [])) = OtherType ''custom''
   \<and> generateNodeLogic customTypePipeline (exampleNode ''custom1'' (OtherType ''custom'') ''Custom Step'' [] [])
       = ''            // Unknown node type''
   \<and> success (fst (generate (exampleGenerator customTypePipeline) exampleTimestamp))
   \<and> errors (fst (generate (exampleGenerator customTypePipeline) exampleTimestamp)) = []"
proof -
  let ?g = "exampleGenerator customTypePipeline"
  let ?n = "exampleNode ''custom1'' (OtherType ''custom'') ''Custom Step'' [] []"
  have p: "pipeline ?g = customTypePipeline" by (simp add: exampleGenerator_def)
  have 1: "data_type (data ?n) = OtherType ''custom''" by (simp add: exampleNode_def)
  have 2: "find (\<lambda>n. node_id n = node_id ?n) (nodes (pipeline ?g)) = Some ?n"
    using customTypePipeline_facts(4) by (simp add: p exampleNode_def)
  have 3: "validatePipeline (pipeline ?g) = []" by (simp add: p customTypePipeline_facts)
  have 4: "topologicalSort (pipeline ?g) = Some [''input1'', ''custom1'', ''output1'']"
    by (simp add: p customTypePipeline_facts)
  from customTypePipeline_facts(3) obtain cfg where
    5: "generateNodeConfigurations (pipeline ?g) = Inr cfg" by (auto simp: p)
  from generateNodeLogic_unregistered [OF 1 2 3 4 5, of exampleTimestamp] 1
  show ?thesis by (simp add: p)
qed

theorem generateNodeLogic_unregistered_counterexample:
  "exampleNode ''custom1'' (OtherType ''custom'') ''Custom Step'' [] [] \<in> set (nodes customTypePipeline)
   \<and> data_type (data (exampleNode ''custom1'' (OtherType ''custom'') ''Custom Step'' [] [])) = OtherType ''custom''
   \<and> generateNodeLogic customTypePipeline (exampleNode ''custom1'' (OtherType ''custom'') ''Custom Step'' [] [])
       = ''            // Unknown node type''
   \<and> success (fst (generate (exampleGenerator customTypePipeline) exampleTimestamp))
   \<and> errors (fst (generate (exampleGenerator customTypePipeline) exampleTimestamp)) = []"
proof -
  let ?g = "exampleGenerator customTypePipeline"
  have p: "pipeline ?g = customTypePipeline" by (simp add: exampleGenerator_def)
  from customTypePipeline_facts(3) obtain cfg where
    "generateNodeConfigurations customTypePipeline = Inr cfg" ..
  from generate_valid [of ?g _ cfg exampleTimestamp] customTypePipeline_facts(1,2) this p
  have "success (fst (generate ?g exampleTimestamp)) \<and> errors (fst (generate ?g exampleTimestamp)) = []"
    by auto
  then show ?thesis
    by (simp add: customTypePipeline_def example_defs)
qed

text \<open>
  C6. Two runs of \<open>generate\<close> on the same generator differ in the generation time only:
  there are a result \<open>r\<close> and two texts \<open>pre\<close> and \<open>suf\<close>, the same for every reading of
  the clock, such that a run at \<open>timestamp\<close> returns \<open>r\<close> with the source text
  \<open>pre @ timestamp @ suf\<close> when it succeeds, and \<open>r\<close> itself when it fails. The build file
  is the one of \<open>r\<close>, and a run on the generator that an earlier run left behind returns
  what a run on the fresh generator returns.
\<close>

theorem generate_deterministic:
  "\<exists>r pre suf. \<forall>timestamp timestamp'.
      fst (generate g timestamp) = (if success r then r\<lparr>kotlinCode := Some (pre @ timestamp @ suf)\<rparr> else r)
      \<and> buildGradle (fst (generate g timestamp)) = buildGradle r
      \<and> fst (generate (snd (generate g timestamp)) timestamp') = fst (generate g timestamp')"
proof (cases "validatePipeline (pipeline g) = []")
  case False
  let ?r = "\<lparr>success = False, kotlinCode = None, buildGradle = None,
              errors = validatePipeline (pipeline g), warnings = []\<rparr>"
  from False have "\<forall>timestamp timestamp'.
      fst (generate g timestamp) = (if success ?r then ?r\<lparr>kotlinCode := Some ([] @ timestamp @ [])\<rparr> else ?r)
      \<and> buildGradle (fst (generate g timestamp)) = buildGradle ?r
      \<and> fst (generate (snd (generate g timestamp)) timestamp') = fst (generate g timestamp')"
    by (simp add: generate_invalid)
  then show ?thesis by blast
next
  case v: True
  show ?thesis
  proof (cases "topologicalSort (pipeline g)")
    case None
    let ?r = "\<lparr>success = False, kotlinCode = None, buildGradle = None,
                errors = [circularDependencyError], warnings = []\<rparr>"
    from v None have "\<forall>timestamp timestamp'.
        fst (generate g timestamp) = (if success ?r then ?r\<lparr>kotlinCode := Some ([] @ timestamp @ [])\<rparr> else ?r)
        \<and> buildGradle (fst (generate g timestamp)) = buildGradle ?r
        \<and> fst (generate (snd (generate g timestamp)) timestamp') = fst (generate g timestamp')"
      by (simp add: generate_no_order)
    then show ?thesis by blast
  next
    case (Some order)
    from generateKotlinCode_parts [of g order] obtain x where
      x: "\<And>ts. fst (generateKotlinCode g order ts)
            = (case x of Inl e \<Rightarrow> Inl e | Inr (pre, suf) \<Rightarrow> Inr (pre @ ts @ suf))"
      by blast
    show ?thesis
    proof (cases x)
      case (Inl e)
      let ?r = "\<lparr>success = False, kotlinCode = None, buildGradle = None,
                  errors = [codeGenerationFailed e], warnings = []\<rparr>"
      from x Inl have "\<And>ts. fst (generateKotlinCode g order ts) = Inl e" by simp
      with v Some have "\<forall>timestamp timestamp'.
          fst (generate g timestamp) = (if success ?r then ?r\<lparr>kotlinCode := Some ([] @ timestamp @ [])\<rparr> else ?r)
          \<and> buildGradle (fst (generate g timestamp)) = buildGradle ?r
          \<and> fst (generate (snd (generate g timestamp)) timestamp') = fst (generate g timestamp')"
        by (simp add: generate_thrown generate_addRequiredImports)
      then show ?thesis by blast
    next
      case (Inr ps)
      obtain pre suf where ps: "ps = (pre, suf)" by (cases ps)
      let ?r = "\<lparr>success = True, kotlinCode = Some [], buildGradle = Some generateBuildGradle,
                  errors = [], warnings = getWarnings (pipeline g)\<rparr>"
      from x Inr ps have "\<And>ts. fst (generateKotlinCode g order ts) = Inr (pre @ ts @ suf)" by simp
      with v Some have "\<forall>timestamp timestamp'.
          fst (generate g timestamp) = (if success ?r then ?r\<lparr>kotlinCode := Some (pre @ timestamp @ suf)\<rparr> else ?r)
          \<and> buildGradle (fst (generate g timestamp)) = buildGradle ?r
          \<and> fst (generate (snd (generate g timestamp)) timestamp') = fst (generate g timestamp')"
        by (simp add: generate_emitted generate_addRequiredImports)
      then show ?thesis by blast
    qed
  qed
qed

text \<open>
  C9. When \<open>generate\<close> succeeds, its warnings are the warning of the many processing
  nodes, if more than 10 nodes have the type \<open>PROCESSING\<close>, followed by one warning for
  each node with an empty configuration, in the order of the nodes; the first warning is
  in the list exactly when there are more than 10 such nodes.
\<close>

theorem generate_warnings:
  assumes "success (fst (generate g timestamp))"
  shows "warnings (fst (generate g timestamp)) =
           (if 10 < length (filter (\<lambda>n. data_type (data n) = PROCESSING) (nodes (pipeline g)))
            then [complexityWarning] else [])
           @ map (\<lambda>node. noConfigurationWarning (label (data node)))
               (filter (\<lambda>node. config (data node) = []) (nodes (pipeline g)))
         \<and> (complexityWarning \<in> set (warnings (fst (generate g timestamp)))
              \<longleftrightarrow> 10 < length (filter (\<lambda>n. data_type (data n) = PROCESSING) (nodes (pipeline g))))"
proof -
  from generate_shape [of g timestamp] assms
  have "warnings (fst (generate g timestamp)) = getWarnings (pipeline g)"
    by (simp add: Let_def)
  then show ?thesis
    by (auto simp: getWarnings_eq)
qed

theorem generate_warnings_witness:
  "success (fst (generate (exampleGenerator textPipeline) exampleTimestamp))
   \<and> warnings (fst (generate (exampleGenerator textPipeline) exampleTimestamp))
       = [noConfigurationWarning ''Text Input'', noConfigurationWarning ''Text Output'']
   \<and> complexityWarning \<notin> set (warnings (fst (generate (exampleGenerator textPipeline) exampleTimestamp)))"
proof -
  let ?g = "exampleGenerator textPipeline"
  have p: "pipeline ?g = textPipeline" by (simp add: exampleGenerator_def)
  from textPipeline_facts(3) obtain cfg where "generateNodeConfigurations textPipeline = Inr cfg" ..
  from generate_valid [of ?g _ cfg exampleTimestamp] textPipeline_facts(1,2) this p
  have s: "success (fst (generate ?g exampleTimestamp))" by auto
  from generate_warnings [OF s] s show ?thesis
    by (simp add: textPipeline_def example_defs2)
qed

section \<open>Properties of the entry point\<close>

text \<open>
  On a pipeline of the declared type the methods on a pipeline as cast are the methods
  above: \<open>generate_any\<close> returns what \<open>generate\<close> returns.
\<close>

lemma castNode_simps [simp]:
  "node_id (castNode n) = node_id n"
  "node_type (castNode n) = node_type n"
  "data_id (data (castNode n)) = data_id (data n)"
  "data_type (data (castNode n)) = data_type (data n)"
  "label (data (castNode n)) = label (data n)"
  "description (data (castNode n)) = description (data n)"
  "icon (data (castNode n)) = icon (data n)"
  "inputs (data (castNode n)) = PortArray (inputs (data n))"
  "outputs (data (castNode n)) = PortArray (outputs (data n))"
  "config (data (castNode n)) = config (data n)"
  by (simp_all add: castNode_def)

lemma castPipeline_simps [simp]:
  "nodes (castPipeline p) = map castNode (nodes p)"
  "edges (castPipeline p) = edges p"
  "name (castPipeline p) = name p"
  by (simp_all add: castPipeline_def)

lemma castGenerator_simps [simp]:
  "pipeline (castGenerator g) = castPipeline (pipeline g)"
  "context_imports (generator_context (castGenerator g)) = context_imports (generator_context g)"
  "targetPackage (generator_context (castGenerator g)) = targetPackage (generator_context g)"
  by (simp_all add: castGenerator_def)

lemma find_castNode:
  "find (\<lambda>n. node_id n = i) (map castNode ns) = map_option castNode (find (\<lambda>n. node_id n = i) ns)"
  by (induction ns) simp_all

lemma filter_castNode:
  "filter (\<lambda>n. data_type (data n) = t) (map castNode ns)
     = map castNode (filter (\<lambda>n. data_type (data n) = t) ns)"
  by (induction ns) simp_all

lemma mapResult_map:
  "mapResult f (map h xs) = mapResult (\<lambda>x. f (h x)) xs"
  by (induction xs) (simp_all split: sum.splits)

lemma mapResult_cong:
  "(\<And>x. x \<in> set xs \<Longrightarrow> f x = h x) \<Longrightarrow> mapResult f xs = mapResult h xs"
  by (induction xs) (simp_all split: sum.splits)

lemma validateConnection_any_cast:
  "validateConnection_any (castPipeline p) edge = Inr (validateConnection p edge)"
  by (simp add: validateConnection_any_def validateConnection_def find_castNode
      split: option.splits)

lemma foldl_validate_cast:
  "foldl (\<lambda>result edge.
            case result of
              Inl e \<Rightarrow> Inl e
            | Inr collected \<Rightarrow>
                (case validateConnection_any (castPipeline p) edge of
                   Inl e \<Rightarrow> Inl e
                 | Inr pushed \<Rightarrow> Inr (collected @ pushed)))
     (Inr acc) es
   = Inr (foldl (\<lambda>errors edge. errors @ validateConnection p edge) acc es)"
  by (induction es arbitrary: acc) (simp_all add: validateConnection_any_cast)

lemma validatePipeline_any_cast:
  "validatePipeline_any (castPipeline p) = Inr (validatePipeline p)"
  by (simp add: validatePipeline_any_def validatePipeline_def Let_def filter_castNode
      foldl_validate_cast)

lemma visitNodes_cast:
  "visitNodes es (map castNode ns) s = visitNodes es ns s"
  by (induction ns arbitrary: s) (simp_all split: option.splits)

lemma topologicalSort_cast:
  "topologicalSort (castPipeline p) = topologicalSort p"
  by (simp add: topologicalSort_def visitNodes_cast)

lemma generateInputNodeLogic_cast:
  "generateInputNodeLogic (castNode n) = generateInputNodeLogic n"
  by (simp add: generateInputNodeLogic_def)

lemma generateProcessingNodeLogic_cast:
  "generateProcessingNodeLogic (castNode n) = generateProcessingNodeLogic n"
  by (simp add: generateProcessingNodeLogic_def)

lemma generateRetrievalNodeLogic_cast:
  "generateRetrievalNodeLogic (castNode n) = generateRetrievalNodeLogic n"
  by (simp add: generateRetrievalNodeLogic_def)

lemma generateLlmNodeLogic_cast:
  "generateLlmNodeLogic (castPipeline p) (castNode n) = generateLlmNodeLogic p n"
  by (simp add: generateLlmNodeLogic_def)

lemma generateLogicNodeLogic_cast:
  "generateLogicNodeLogic (castNode n) = generateLogicNodeLogic n"
  by (simp add: generateLogicNodeLogic_def)

lemma generateOutputNodeLogic_cast:
  "generateOutputNodeLogic (castPipeline p) (castNode n) = generateOutputNodeLogic p n"
  by (simp add: generateOutputNodeLogic_def)

lemma generateNodeLogic_cast:
  "generateNodeLogic (castPipeline p) (castNode n) = generateNodeLogic p n"
  by (simp add: generateInputNodeLogic_cast generateProcessingNodeLogic_cast
      generateRetrievalNodeLogic_cast generateLlmNodeLogic_cast generateLogicNodeLogic_cast
      generateOutputNodeLogic_cast split: NodeType.splits)

lemma generateNodeMethod_any_cast:
  "generateNodeMethod_any (castPipeline p) (castNode n) = Inr (generateNodeMethod p n)"
  by (simp add: generateNodeMethod_any_def generateNodeMethod_def generateNodeLogic_cast Let_def
      del: generateNodeLogic.simps)

lemma generateClassBody_any_cast:
  "generateClassBody_any (castPipeline p) executionOrder = generateClassBody p executionOrder"
proof -
  have "mapResult
          (\<lambda>nodeId. case find (\<lambda>n. node_id n = nodeId) (nodes (castPipeline p)) of
                      None \<Rightarrow> Inl (JsError (''Cannot read properties of undefined (reading '' @ [CHR 0x27] @ ''id'' @ [CHR 0x27] @ '')''))
                    | Some node \<Rightarrow> generateNodeMethod_any (castPipeline p) node)
          executionOrder
      = mapResult
          (\<lambda>nodeId. case find (\<lambda>n. node_id n = nodeId) (nodes p) of
                      None \<Rightarrow> Inl (JsError (''Cannot read properties of undefined (reading '' @ [CHR 0x27] @ ''id'' @ [CHR 0x27] @ '')''))
                    | Some node \<Rightarrow> Inr (generateNodeMethod p node))
          executionOrder"
    by (rule mapResult_cong)
      (simp add: find_castNode generateNodeMethod_any_cast split: option.splits)
  then show ?thesis
    by (simp add: generateClassBody_any_def generateClassBody_def)
qed

lemma generateNodeConfigurations_cast:
  "generateNodeConfigurations (castPipeline p) = generateNodeConfigurations p"
  by (simp add: generateNodeConfigurations_def mapResult_map cong: sum.case_cong)

lemma generateExecutionSequence_cast:
  "generateExecutionSequence (castPipeline p) executionOrder = generateExecutionSequence p executionOrder"
proof -
  have "\<And>nodeId. (case find (\<lambda>n. node_id n = nodeId) (nodes (castPipeline p)) of
                      None \<Rightarrow> Inl (JsError (''Cannot read properties of undefined (reading '' @ [CHR 0x27] @ ''data'' @ [CHR 0x27] @ '')''))
                    | Some node \<Rightarrow>
                        Inr (join newline
                               [''            // Execute: '' @ label (data node),
                                ''            executeNode_'' @ replaceNonAlphaNumeric nodeId @ ''()'']))
      = (case find (\<lambda>n. node_id n = nodeId) (nodes p) of
                      None \<Rightarrow> Inl (JsError (''Cannot read properties of undefined (reading '' @ [CHR 0x27] @ ''data'' @ [CHR 0x27] @ '')''))
                    | Some node \<Rightarrow>
                        Inr (join newline
                               [''            // Execute: '' @ label (data node),
                                ''            executeNode_'' @ replaceNonAlphaNumeric nodeId @ ''()'']))"
    by (simp add: find_castNode split: option.splits)
  then show ?thesis
    by (simp add: generateExecutionSequence_def)
qed

lemma generateOutputExtraction_any_cast:
  "generateOutputExtraction_any (castPipeline p) = generateOutputExtraction p"
  by (simp add: generateOutputExtraction_any_def generateOutputExtraction_def filter_castNode
      Let_def comp_def split: list.splits cong: list.case_cong)

lemma foldl_warnings_cast:
  "foldl (\<lambda>warnings node.
            if length (config (data node)) = 0
            then warnings @ [noConfigurationWarning (label (data node))]
            else warnings) acc (map castNode ns)
   = foldl (\<lambda>warnings node.
            if length (config (data node)) = 0
            then warnings @ [noConfigurationWarning (label (data node))]
            else warnings) acc ns"
  by (induction ns arbitrary: acc) simp_all

lemma getWarnings_cast:
  "getWarnings (castPipeline p) = getWarnings p"
  using foldl_warnings_cast
  by (simp add: getWarnings_def Let_def filter_castNode)

lemma addRequiredImports_cast:
  "addRequiredImports (castGenerator g) = castGenerator (addRequiredImports g)"
  by (simp add: addRequiredImports_def castGenerator_def)

lemma generateKotlinCode_any_cast:
  "generateKotlinCode_any (castGenerator g) executionOrder timestamp
     = (fst (generateKotlinCode g executionOrder timestamp),
        castGenerator (snd (generateKotlinCode g executionOrder timestamp)))"
  by (simp add: generateKotlinCode_any_def generateKotlinCode_def Let_def addRequiredImports_cast
      generateClassBody_any_cast generateNodeConfigurations_cast generateExecutionSequence_cast
      generateOutputExtraction_any_cast split: sum.splits)

lemma generate_any_cast:
  "generate_any (castGenerator g) timestamp
     = (fst (generate g timestamp), castGenerator (snd (generate g timestamp)))"
  by (simp add: generate_any_def generate_def Let_def validatePipeline_any_cast
      topologicalSort_cast generateKotlinCode_any_cast getWarnings_cast generateKotlinCode_snd
      case_prod_beta
      split: option.splits sum.splits)

text \<open>
  What leaves \<open>generateCodeFromPipeline\<close> is thrown by \<^verbatim>\<open>inferDataType\<close> in the
  constructor: it happens exactly when the source node of an edge holds no array in its
  \<^verbatim>\<open>outputs\<close>. Whatever is thrown later is caught, and the result that is returned is a
  success with a source text or a failure with an error and no source text.
\<close>

lemma mapResult_Inl_iff:
  "(\<exists>e. mapResult f xs = Inl e) \<longleftrightarrow> (\<exists>x\<in>set xs. \<exists>e. f x = Inl e)"
  by (induction xs) (auto split: sum.splits)

lemma mapResult_InlD:
  "mapResult f xs = Inl e \<Longrightarrow> \<exists>x\<in>set xs. f x = Inl e"
  by (induction xs) (auto split: sum.splits)

lemma find_buildPipelineNode:
  "find (\<lambda>n. node_id n = i) (map buildPipelineNode flowNodes)
     = map_option buildPipelineNode (find (\<lambda>n. flow_node_id n = i) flowNodes)"
  by (induction flowNodes) (simp_all add: buildPipelineNode_def)

lemma inferDataType_Inl_iff:
  "inferDataType edge (map buildPipelineNode flowNodes) = Inl e \<longleftrightarrow>
     e = notAFunction ''sourceNode?.data.outputs.find''
     \<and> (\<exists>sourceNode. find (\<lambda>n. flow_node_id n = flow_source edge) flowNodes = Some sourceNode
           \<and> Option.bind (flow_data sourceNode) flow_outputs = Some NotAnArray)"
  by (auto simp: inferDataType_def find_buildPipelineNode buildPipelineNode_def
      split: option.splits PortsValue.splits)

lemma generateCodeFromPipeline_Inl_iff:
  "(\<exists>e. generateCodeFromPipeline flowNodes flowEdges pipelineName now timestamp = Inl e) \<longleftrightarrow>
     (\<exists>edge\<in>set flowEdges. \<exists>sourceNode.
        find (\<lambda>n. flow_node_id n = flow_source edge) flowNodes = Some sourceNode
        \<and> Option.bind (flow_data sourceNode) flow_outputs = Some NotAnArray)"
proof -
  let ?f = "\<lambda>edge. case inferDataType edge (map buildPipelineNode flowNodes) of
                Inl e \<Rightarrow> Inl e
              | Inr inferred \<Rightarrow>
                  Inr \<lparr>edge_id = flow_edge_id edge, source = flow_source edge, target = flow_target edge,
                       sourceHandle = flow_sourceHandle edge, targetHandle = flow_targetHandle edge,
                       edge_sourcePort = orDefault (flow_sourceHandle edge) ''output'',
                       edge_targetPort = orDefault (flow_targetHandle edge) ''input'',
                       edge_dataType = inferred,
                       validated = True\<rparr>"
  have "(\<exists>e. generateCodeFromPipeline flowNodes flowEdges pipelineName now timestamp = Inl e)
      \<longleftrightarrow> (\<exists>e. mapResult ?f flowEdges = Inl e)"
    by (auto simp: generateCodeFromPipeline_def newCodeGenerator_def buildPipeline_def Let_def
        split: sum.splits)
  also have "\<dots> \<longleftrightarrow> (\<exists>edge\<in>set flowEdges. \<exists>e. ?f edge = Inl e)"
    by (rule mapResult_Inl_iff)
  also have "\<dots> \<longleftrightarrow> (\<exists>edge\<in>set flowEdges. \<exists>e. inferDataType edge (map buildPipelineNode flowNodes) = Inl e)"
  proof -
    have "(\<exists>e. ?f edge = Inl e) \<longleftrightarrow> (\<exists>e. inferDataType edge (map buildPipelineNode flowNodes) = Inl e)"
      for edge
      by (cases "inferDataType edge (map buildPipelineNode flowNodes)") simp_all
    then show ?thesis by simp
  qed
  also have "\<dots> \<longleftrightarrow> (\<exists>edge\<in>set flowEdges. \<exists>sourceNode.
        find (\<lambda>n. flow_node_id n = flow_source edge) flowNodes = Some sourceNode
        \<and> Option.bind (flow_data sourceNode) flow_outputs = Some NotAnArray)"
    by (simp add: inferDataType_Inl_iff)
  finally show ?thesis .
qed

lemma generate_any_shape:
  "(let r = fst (generate_any g timestamp)
    in if success r then errors r = [] \<and> kotlinCode r \<noteq> None \<and> buildGradle r \<noteq> None
       else errors r \<noteq> [] \<and> kotlinCode r = None \<and> buildGradle r = None)"
  by (auto simp: generate_any_def Let_def split: sum.splits option.splits prod.splits)

lemma generateCodeFromPipeline_returned:
  "generateCodeFromPipeline flowNodes flowEdges pipelineName now timestamp = Inr r \<Longrightarrow>
     (if success r then errors r = [] \<and> kotlinCode r \<noteq> None \<and> buildGradle r \<noteq> None
      else errors r \<noteq> [] \<and> kotlinCode r = None \<and> buildGradle r = None)"
proof -
  assume "generateCodeFromPipeline flowNodes flowEdges pipelineName now timestamp = Inr r"
  then obtain g where "r = fst (generate_any g timestamp)"
    by (auto simp: generateCodeFromPipeline_def split: sum.splits)
  with generate_any_shape [of g timestamp] show ?thesis
    by (simp add: Let_def)
qed

text \<open>
  C10, at an input that the code lets through. The \<^verbatim>\<open>outputs\<close> of the source node of
  the edge hold an object that is no array: \<^verbatim>\<open>inferDataType\<close> calls \<^verbatim>\<open>find\<close> on it, in the
  constructor, and the \<^verbatim>\<open>TypeError\<close> leaves \<open>generateCodeFromPipeline\<close>. The same value
  in the \<^verbatim>\<open>inputs\<close> of the target node is met inside \<^verbatim>\<open>generate\<close>, in the validation, and
  there the error becomes a failure result.
\<close>

theorem generateCodeFromPipeline_throws:
  "generateCodeFromPipeline objectOutputsNodes [textEdge] None 0 exampleTimestamp
     = Inl (JsError ''sourceNode?.data.outputs.find is not a function'')
   \<and> generateCodeFromPipeline objectInputsNodes [textEdge] None 0 exampleTimestamp
     = Inr \<lparr>success = False, kotlinCode = None, buildGradle = None,
            errors = [''Code generation failed: targetNode.data.inputs.find is not a function''],
            warnings = []\<rparr>"
  by (simp add: generateCodeFromPipeline_def newCodeGenerator_def buildPipeline_def
      buildPipelineNode_def inferDataType_def nodeTypeOrDefault_def orDefault_def
      objectOutputsNodes_def objectInputsNodes_def flowNode_def textEdge_def examplePort_def
      notAFunction_def generate_any_def validatePipeline_any_def validateConnection_any_def
      codeGenerationFailed_def Let_def)

end
